theory Spec2Isabelle
  imports Complex_Main "HOL-Library.Sublist"
begin

section \<open>Data model (src/types/index.ts)\<close>

text \<open>
  A \<open>Pixel\<close> of the source has the fields \<open>x\<close>, \<open>y\<close>, \<open>color\<close> and the optional
  \<open>lastPainted\<close>; the first three are prefixed here so that they do not capture the
  variable names of the theorems.  A \<open>CanvasChunk\<close> is \<open>Pixel[][]\<close>; at run time a slot of
  a JavaScript array can hold \<open>undefined\<close>, which is \<open>None\<close> here.
\<close>

record Pixel =
  px :: int
  py :: int
  pcolor :: string
  lastPainted :: "int option"

type_synonym CanvasChunk = "Pixel option list list"

record ViewportState =
  scale :: real
  offsetX :: real
  offsetY :: real
  selectedX :: "int option"
  selectedY :: "int option"

section \<open>The canvas store (src/store/canvasStore.ts)\<close>

record CanvasStore =
  canvasWidth :: int
  canvasHeight :: int
  chunkSize :: int
  chunks :: "string \<rightharpoonup> CanvasChunk"
  loadingChunks :: "string \<rightharpoonup> bool"
  viewport :: ViewportState

text \<open>Template strings print an integer in decimal, with a minus sign when negative.\<close>

fun digits :: "nat \<Rightarrow> string" where
  "digits n = (if n < 10 then [''0123456789'' ! n]
               else digits (n div 10) @ [''0123456789'' ! (n mod 10)])"

definition numberToString :: "int \<Rightarrow> string" where
  "numberToString i = (if i < 0 then CHR ''-'' # digits (nat (- i)) else digits (nat i))"

definition getChunkKey :: "int \<Rightarrow> int \<Rightarrow> string" where
  "getChunkKey startX startY = numberToString startX @ '','' @ numberToString startY"

definition setDimensions :: "CanvasStore \<Rightarrow> int \<Rightarrow> int \<Rightarrow> CanvasStore" where
  "setDimensions s width height = s\<lparr>canvasWidth := width, canvasHeight := height\<rparr>"

definition setChunk :: "CanvasStore \<Rightarrow> int \<Rightarrow> int \<Rightarrow> CanvasChunk \<Rightarrow> CanvasStore" where
  "setChunk s startX startY chunk =
     (let chunkKey = getChunkKey startX startY
      in s\<lparr>chunks := (chunks s)(chunkKey \<mapsto> chunk),
            loadingChunks := (loadingChunks s)(chunkKey \<mapsto> False)\<rparr>)"

definition setChunkLoading :: "CanvasStore \<Rightarrow> int \<Rightarrow> int \<Rightarrow> bool \<Rightarrow> CanvasStore" where
  "setChunkLoading s startX startY isLoading =
     (let chunkKey = getChunkKey startX startY
      in s\<lparr>loadingChunks := (loadingChunks s)(chunkKey \<mapsto> isLoading)\<rparr>)"

text \<open>
  JavaScript indexing \<open>arr[i]\<close>: the element when \<open>i\<close> is an index of the array,
  \<open>undefined\<close> otherwise.  \<open>cellAt\<close> is the guard
  \<open>chunk[relativeY] && chunk[relativeY][relativeX]\<close> of \<open>updatePixel\<close> and \<open>getPixel\<close>.
\<close>

definition jsIndex :: "'a list \<Rightarrow> int \<Rightarrow> 'a option" where
  "jsIndex xs i = (if 0 \<le> i \<and> i < int (length xs) then Some (xs ! nat i) else None)"

definition cellAt :: "CanvasChunk \<Rightarrow> int \<Rightarrow> int \<Rightarrow> Pixel option" where
  "cellAt chunk relativeY relativeX =
     (case jsIndex chunk relativeY of
        None \<Rightarrow> None
      | Some row \<Rightarrow> (case jsIndex row relativeX of None \<Rightarrow> None | Some cell \<Rightarrow> cell))"

text \<open>
  \<open>Math.floor(x / chunkSize) * chunkSize\<close>.  The store creates \<open>chunkSize\<close> as
  \<open>DEFAULT_CHUNK_SIZE = 20\<close> and has no action that changes it; the theorems below
  ask for \<open>0 < chunkSize\<close>, where the real quotient of the source and this one agree.
\<close>

definition chunkStart :: "int \<Rightarrow> int \<Rightarrow> int" where
  "chunkStart v cs = \<lfloor>real_of_int v / real_of_int cs\<rfloor> * cs"

text \<open>\<open>updatePixel\<close>; the last argument is the value of \<open>Date.now()\<close>.\<close>

definition updatePixel :: "CanvasStore \<Rightarrow> int \<Rightarrow> int \<Rightarrow> string \<Rightarrow> int \<Rightarrow> CanvasStore" where
  "updatePixel s x y color now =
     (let chunkStartX = chunkStart x (chunkSize s);
          chunkStartY = chunkStart y (chunkSize s);
          chunkKey = getChunkKey chunkStartX chunkStartY
      in case chunks s chunkKey of
           None \<Rightarrow> s
         | Some chunk \<Rightarrow>
             (let newChunk = map (\<lambda>row. row) chunk;
                  relativeX = x - chunkStartX;
                  relativeY = y - chunkStartY;
                  newChunk' =
                    (case cellAt newChunk relativeY relativeX of
                       None \<Rightarrow> newChunk
                     | Some p \<Rightarrow>
                         newChunk[nat relativeY :=
                           (newChunk ! nat relativeY)[nat relativeX :=
                              Some (p\<lparr>pcolor := color, lastPainted := Some now\<rparr>)]])
              in s\<lparr>chunks := (chunks s)(chunkKey \<mapsto> newChunk')\<rparr>))"

definition getPixel :: "CanvasStore \<Rightarrow> int \<Rightarrow> int \<Rightarrow> Pixel option" where
  "getPixel s x y =
     (let chunkStartX = chunkStart x (chunkSize s);
          chunkStartY = chunkStart y (chunkSize s);
          chunkKey = getChunkKey chunkStartX chunkStartY
      in case chunks s chunkKey of
           None \<Rightarrow> None
         | Some chunk \<Rightarrow> cellAt chunk (y - chunkStartY) (x - chunkStartX))"

text \<open>The store as \<open>create\<close> builds it, and a store holding one 1x1 chunk at the origin.\<close>

definition initialStore :: CanvasStore where
  "initialStore =
     \<lparr>canvasWidth = 100, canvasHeight = 100, chunkSize = 20,
      chunks = Map.empty, loadingChunks = Map.empty,
      viewport = \<lparr>scale = 10, offsetX = 0, offsetY = 0, selectedX = None, selectedY = None\<rparr>\<rparr>"

definition whitePixel :: Pixel where
  "whitePixel = \<lparr>px = 0, py = 0, pcolor = ''#FFFFFF'', lastPainted = None\<rparr>"

definition onePixelStore :: CanvasStore where
  "onePixelStore = setChunk initialStore 0 0 [[Some whitePixel]]"

section \<open>The chunk-loading path (src/components/canvas/Canvas.tsx)\<close>

text \<open>
  \<open>loadVisibleChunks\<close> tests \<open>!chunks[chunkKey] && !loadingChunks[chunkKey]\<close> on the
  \<open>chunks\<close> and \<open>loadingChunks\<close> objects that the component read from the store when
  the callback was created, then calls \<open>setChunkLoading(startX, startY, true)\<close> on the
  store.  The test and the call are one synchronous section; the fetch that follows is
  awaited, and ends in \<open>setChunk\<close> or, in the \<open>catch\<close>, in
  \<open>setChunkLoading(startX, startY, false)\<close>.
\<close>

definition needsLoad :: "(string \<rightharpoonup> CanvasChunk) \<Rightarrow> (string \<rightharpoonup> bool) \<Rightarrow> int \<Rightarrow> int \<Rightarrow> bool" where
  "needsLoad snapChunks snapLoading startX startY =
     (let chunkKey = getChunkKey startX startY
      in snapChunks chunkKey = None \<and> snapLoading chunkKey \<noteq> Some True)"

definition markLoading ::
  "(string \<rightharpoonup> CanvasChunk) \<Rightarrow> (string \<rightharpoonup> bool) \<Rightarrow> CanvasStore \<Rightarrow> int \<Rightarrow> int \<Rightarrow> CanvasStore" where
  "markLoading snapChunks snapLoading s startX startY =
     (if needsLoad snapChunks snapLoading startX startY
      then setChunkLoading s startX startY True else s)"

text \<open>A chunk key is in at most one of present and loading.\<close>

definition chunkStateInv :: "CanvasStore \<Rightarrow> bool" where
  "chunkStateInv s = (\<forall>k. chunks s k = None \<or> loadingChunks s k \<noteq> Some True)"

text \<open>
  A load of the chunks at (0,0) and (20,0) that started on the empty store.  While it
  awaits the fetch of (0,0), another task (the periodic refresh, or a load started by
  a later render) merges the chunk at (20,0).  The load still tests the objects it
  captured at its start.
\<close>

definition staleLoad :: CanvasStore where
  "staleLoad =
     (let snapChunks = chunks initialStore;
          snapLoading = loadingChunks initialStore;
          s1 = markLoading snapChunks snapLoading initialStore 0 0;
          s2 = setChunk s1 20 0 [[Some whitePixel]];
          s3 = setChunk s2 0 0 [[Some whitePixel]]
      in markLoading snapChunks snapLoading s3 20 0)"

section \<open>Visible chunks (\<open>getVisibleChunks\<close> of the store)\<close>

text \<open>
  \<open>scale\<close> and the offsets are JavaScript numbers, read here as reals; the two extra
  arguments are \<open>window.innerWidth\<close> and \<open>window.innerHeight\<close>.  \<open>setScale\<close> keeps the
  scale in \<open>[1, 40]\<close>, and the theorems ask for a positive scale.
\<close>

definition visibleStartX :: "CanvasStore \<Rightarrow> int" where
  "visibleStartX s = max 0 \<lfloor>- offsetX (viewport s) / scale (viewport s)\<rfloor>"

definition visibleStartY :: "CanvasStore \<Rightarrow> int" where
  "visibleStartY s = max 0 \<lfloor>- offsetY (viewport s) / scale (viewport s)\<rfloor>"

definition visibleEndX :: "CanvasStore \<Rightarrow> real \<Rightarrow> int" where
  "visibleEndX s viewportWidth =
     min (canvasWidth s) \<lceil>(viewportWidth - offsetX (viewport s)) / scale (viewport s)\<rceil>"

definition visibleEndY :: "CanvasStore \<Rightarrow> real \<Rightarrow> int" where
  "visibleEndY s viewportHeight =
     min (canvasHeight s) \<lceil>(viewportHeight - offsetY (viewport s)) / scale (viewport s)\<rceil>"

text \<open>\<open>Math.ceil(v / chunkSize) * chunkSize\<close>.\<close>

definition chunkEnd :: "int \<Rightarrow> int \<Rightarrow> int" where
  "chunkEnd v cs = \<lceil>real_of_int v / real_of_int cs\<rceil> * cs"

text \<open>
  The values of the counter of \<open>for (let x = start; x < end; x += step)\<close>.  With a step
  that is not positive the source does not produce a chunk list (its bounds are \<open>NaN\<close>
  for a zero step, and the loop does not end for a negative one); the list is empty
  here, and no theorem is stated for that case.
\<close>

function forRange :: "int \<Rightarrow> int \<Rightarrow> int \<Rightarrow> int list" where
  "forRange x e step = (if 0 < step \<and> x < e then x # forRange (x + step) e step else [])"
  by pat_completeness auto
termination
  by (relation "measure (\<lambda>(x, e, step). nat (e - x))") auto

text \<open>A chunk origin \<open>{ startX, startY }\<close> is the pair \<open>(startX, startY)\<close>.\<close>

definition getVisibleChunks :: "CanvasStore \<Rightarrow> real \<Rightarrow> real \<Rightarrow> (int \<times> int) list" where
  "getVisibleChunks s viewportWidth viewportHeight =
     (let startChunkX = chunkStart (visibleStartX s) (chunkSize s);
          startChunkY = chunkStart (visibleStartY s) (chunkSize s);
          endChunkX = chunkEnd (visibleEndX s viewportWidth) (chunkSize s);
          endChunkY = chunkEnd (visibleEndY s viewportHeight) (chunkSize s)
      in concat (map (\<lambda>y. map (\<lambda>x. (x, y)) (forRange startChunkX endChunkX (chunkSize s)))
                     (forRange startChunkY endChunkY (chunkSize s))))"

text \<open>
  The visible rectangle, clamped to the grid: the cells from \<open>visibleStart\<close> up to,
  not including, \<open>visibleEnd\<close> on both axes.  A chunk with origin \<open>(cx, cy)\<close> holds the
  cells of the square of side \<open>chunkSize\<close> from its origin; it is wholly outside the
  visible rectangle when it holds no visible cell.
\<close>

definition visibleCell :: "CanvasStore \<Rightarrow> real \<Rightarrow> real \<Rightarrow> int \<Rightarrow> int \<Rightarrow> bool" where
  "visibleCell s viewportWidth viewportHeight x y =
     (visibleStartX s \<le> x \<and> x < visibleEndX s viewportWidth
      \<and> visibleStartY s \<le> y \<and> y < visibleEndY s viewportHeight)"

definition inChunk :: "int \<Rightarrow> int \<times> int \<Rightarrow> int \<Rightarrow> int \<Rightarrow> bool" where
  "inChunk cs c x y = (fst c \<le> x \<and> x < fst c + cs \<and> snd c \<le> y \<and> y < snd c + cs)"

definition whollyOutside :: "CanvasStore \<Rightarrow> real \<Rightarrow> real \<Rightarrow> int \<times> int \<Rightarrow> bool" where
  "whollyOutside s viewportWidth viewportHeight c =
     (\<nexists>x y. visibleCell s viewportWidth viewportHeight x y \<and> inChunk (chunkSize s) c x y)"

text \<open>
  A 21x21 grid seen through an 800x600 window after panning 250 pixels to the left at
  scale 10, and the default store panned so that its visible cells start at (5,5) in a
  200x200 window.
\<close>

definition pannedStore :: CanvasStore where
  "pannedStore =
     \<lparr>canvasWidth = 21, canvasHeight = 21, chunkSize = 20,
      chunks = Map.empty, loadingChunks = Map.empty,
      viewport = \<lparr>scale = 10, offsetX = - 250, offsetY = 0, selectedX = None, selectedY = None\<rparr>\<rparr>"

definition scenarioStore :: CanvasStore where
  "scenarioStore =
     initialStore\<lparr>viewport := \<lparr>scale = 10, offsetX = - 50, offsetY = - 50,
                                 selectedX = None, selectedY = None\<rparr>\<rparr>"

section \<open>The throttled provider (\<open>ThrottledProvider\<close> of lib/web3utils)\<close>

text \<open>
  JSON values as far as the provider builds them itself, and the parameters of a
  JSON-RPC request: the first parameter of an \<open>eth_call\<close> is an object with the optional
  fields \<open>to\<close> and \<open>data\<close>; any other parameter has no \<open>data\<close> field.
\<close>

datatype json = JNull | JNum int | JStr string | JArr "json list"

datatype param = CallObject "string option" "string option" | OtherParam json

record knownIssue =
  mockResponse :: json
  logMessage :: string

definition knownIssues :: "(string \<times> knownIssue) list" where
  "knownIssues =
     [(''0xd44d3394'', \<lparr>mockResponse = JArr [JNum 0, JNum 0],
                          logMessage = ''Mocking response for HEIGHT contract call''\<rparr>),
      (''0x69ea80d5'', \<lparr>mockResponse = JArr [JNum 0, JNum 0],
                          logMessage = ''Mocking response for WIDTH contract call''\<rparr>),
      (''0xbb3c358c'', \<lparr>mockResponse = JArr [JNum 0, JNum 0],
                          logMessage = ''Mocking response for pixelFee contract call''\<rparr>),
      (''0xe59252c9'', \<lparr>mockResponse = JStr ''0xFFFFFF'',
                          logMessage = ''Mocking response for getPixelColor contract call''\<rparr>),
      (''0xc58f4da7'', \<lparr>mockResponse = JArr [JArr []],
                          logMessage = ''Mocking response for getCanvasSection contract call''\<rparr>)]"

text \<open>
  A queued request is the pair of its method and parameters; running it is
  \<open>runRequest\<close> below.  \<open>maxBatchSize\<close>, \<open>requestDelay\<close> and \<open>maxTimeout\<close> start at 1, 50
  and 20000.
\<close>

type_synonym request = "string \<times> param list"

record ThrottledProvider =
  requestQueue :: "request list"
  isProcessing :: bool
  maxBatchSize :: nat
  requestDelay :: nat
  maxTimeout :: nat

definition newProvider :: ThrottledProvider where
  "newProvider = \<lparr>requestQueue = [], isProcessing = False, maxBatchSize = 1,
                    requestDelay = 50, maxTimeout = 20000\<rparr>"

text \<open>
  The first test of \<open>send\<close>: \<open>method === 'eth_call' && params[0] && params[0].data\<close>,
  then the loop over the entries of \<open>knownIssues\<close> comparing
  \<open>data.substring(0, 10)\<close> with each signature.
\<close>

definition lookupKnownIssue :: "string \<Rightarrow> param list \<Rightarrow> knownIssue option" where
  "lookupKnownIssue method params =
     (if method = ''eth_call'' then
        (case params of
           CallObject to (Some data) # rest \<Rightarrow>
             (if data = [] then None
              else map_option snd
                     (List.find (\<lambda>entry. take 10 data = fst entry) knownIssues))
         | _ \<Rightarrow> None)
      else None)"

text \<open>The second test: the three ENS selectors, answered with \<open>null\<close>.\<close>

definition isEnsCall :: "string \<Rightarrow> param list \<Rightarrow> bool" where
  "isEnsCall method params =
     (method = ''eth_call'' \<and>
      (case params of
         CallObject to (Some callData) # rest \<Rightarrow>
           prefix ''0x01ffc9a7'' callData \<or> prefix ''0x9061b923'' callData
           \<or> prefix ''0x3b3b57de'' callData
       | _ \<Rightarrow> False))"

text \<open>
  \<open>processQueue\<close> up to its first \<open>await\<close>: nothing when the queue is being processed or
  is empty; otherwise the flag is set and the first batch,
  \<open>requestQueue.splice(0, maxBatchSize)\<close>, is started.
\<close>

definition processQueue :: "ThrottledProvider \<Rightarrow> ThrottledProvider \<times> request list" where
  "processQueue p =
     (if isProcessing p \<or> requestQueue p = [] then (p, [])
      else (p\<lparr>isProcessing := True, requestQueue := drop (maxBatchSize p) (requestQueue p)\<rparr>,
            take (maxBatchSize p) (requestQueue p)))"

text \<open>
  \<open>send\<close> either returns a value at once or returns the promise of a queued request.
  The third component is the batch of requests that this call started, the only way a
  request reaches \<open>super.send\<close>, the network transport.
\<close>

datatype sendResult = Returned json | Queued

definition send ::
  "ThrottledProvider \<Rightarrow> string \<Rightarrow> param list \<Rightarrow> sendResult \<times> ThrottledProvider \<times> request list" where
  "send p method params =
     (case lookupKnownIssue method params of
        Some config \<Rightarrow> (Returned (mockResponse config), p, [])
      | None \<Rightarrow>
          if isEnsCall method params then (Returned JNull, p, [])
          else
            (let p1 = p\<lparr>requestQueue := requestQueue p @ [(method, params)]\<rparr>
             in if \<not> isProcessing p1
                then (Queued, fst (processQueue p1), snd (processQueue p1))
                else (Queued, p1, [])))"

text \<open>
  What the transport does with one \<open>super.send\<close>: it resolves, it rejects with an error
  (identified by its message), or it does not settle.  \<open>stringIncludes\<close> is
  \<open>String.prototype.includes\<close>.
\<close>

datatype outcome = Success json | Failure string | NoAnswer

fun stringIncludes :: "string \<Rightarrow> string \<Rightarrow> bool" where
  "stringIncludes [] needle = (needle = [])"
| "stringIncludes (c # cs) needle = (prefix needle (c # cs) \<or> stringIncludes cs needle)"

definition timeoutMessage :: "ThrottledProvider \<Rightarrow> string \<Rightarrow> string" where
  "timeoutMessage p method =
     ''Request timed out after '' @ numberToString (int (maxTimeout p)) @ ''ms: '' @ method"

text \<open>
  Running a queued request.  The first \<open>super.send\<close> races against the timeout, so a
  transport that does not answer gives the timeout error; the retry after a batch-size
  error is awaited without a timeout.  The result is how the promise of \<open>send\<close> is
  settled, the provider afterwards, and the waits and transport calls made, in order.
\<close>

datatype settlement = Resolved json | Rejected string | Pending

datatype action = Wait nat | SuperSend string "param list"

definition runRequest ::
  "ThrottledProvider \<Rightarrow> string \<Rightarrow> param list \<Rightarrow> outcome \<Rightarrow> outcome
     \<Rightarrow> settlement \<times> ThrottledProvider \<times> action list" where
  "runRequest p method params first retry =
     (let firstTry = [Wait (requestDelay p), SuperSend method params];
          failed = (\<lambda>message.
            if message \<noteq> [] \<and> stringIncludes message ''Batch size is too large'' then
              (let p' = p\<lparr>maxBatchSize := 1, requestDelay := requestDelay p + 50\<rparr>;
                   actions = firstTry @ [Wait 500, SuperSend method params]
               in case retry of
                    Success retryResult \<Rightarrow> (Resolved retryResult, p', actions)
                  | Failure retryError \<Rightarrow> (Rejected retryError, p', actions)
                  | NoAnswer \<Rightarrow> (Pending, p', actions))
            else if message \<noteq> [] \<and> stringIncludes message ''timed out'' then
              (if method = ''eth_call'' then (Resolved (JStr ''0x''), p, firstTry)
               else if method = ''eth_chainId'' then (Resolved (JStr ''0x1''), p, firstTry)
               else (Rejected message, p, firstTry))
            else (Rejected message, p, firstTry))
      in case first of
           Success result \<Rightarrow> (Resolved result, p, firstTry)
         | Failure message \<Rightarrow> failed message
         | NoAnswer \<Rightarrow> failed (timeoutMessage p method))"

text \<open>
  The rest of \<open>processQueue\<close>: after a batch has settled, the next batch is taken, or the
  flag is cleared when the queue is empty.
\<close>

definition processQueueNext :: "ThrottledProvider \<Rightarrow> ThrottledProvider \<times> request list" where
  "processQueueNext p =
     (if requestQueue p \<noteq> []
      then (p\<lparr>requestQueue := drop (maxBatchSize p) (requestQueue p)\<rparr>,
            take (maxBatchSize p) (requestQueue p))
      else (p\<lparr>isProcessing := False\<rparr>, []))"

text \<open>Everything that can happen to a provider during a session, in any order.\<close>

datatype providerOp =
    CallSend string "param list"
  | RunRequest string "param list" outcome outcome
  | NextBatch

fun applyProviderOp :: "ThrottledProvider \<Rightarrow> providerOp \<Rightarrow> ThrottledProvider" where
  "applyProviderOp p (CallSend method params) = fst (snd (send p method params))"
| "applyProviderOp p (RunRequest method params first retry) =
     fst (snd (runRequest p method params first retry))"
| "applyProviderOp p NextBatch = fst (processQueueNext p)"

definition session :: "providerOp list \<Rightarrow> ThrottledProvider \<Rightarrow> ThrottledProvider" where
  "session ops p = foldl applyProviderOp p ops"

text \<open>An \<open>eth_call\<close> of \<open>getPixelColor(5, 7)\<close> on the Sepolia contract.\<close>

definition getPixelColorCall :: "param list" where
  "getPixelColorCall =
     [CallObject (Some ''0x98cb468f12e856FAf2320e2B3d2969B97d59Eb91'')
        (Some (''0xe59252c9'' @ ''0000000000000000000000000000000000000000000000000000000000000005''
                 @ ''0000000000000000000000000000000000000000000000000000000000000007'')),
      OtherParam (JStr ''latest'')]"

section \<open>Submitting a pixel (\<open>paintPixel\<close> of lib/web3utils)\<close>

text \<open>
  \<open>TransactionResult\<close>; its field \<open>error\<close> is \<open>txError\<close> here.  An error thrown by ethers
  carries an optional \<open>code\<close> and a \<open>message\<close>.
\<close>

record TransactionResult =
  success :: bool
  transactionHash :: "string option"
  txError :: "string option"

datatype ethersError = EthersError "string option" string

definition hexToBytes3 :: "string \<Rightarrow> string" where
  "hexToBytes3 hexColor = ''0x'' @ (if prefix ''#'' hexColor then drop 1 hexColor else hexColor)"

text \<open>
  What the environment does: \<open>contract.paintPixel(..)\<close> throws or returns a transaction
  with a hash; \<open>tx.wait(1)\<close> resolves within 20 seconds, rejects, or is overtaken by the
  timeout.  The second component of the result lists the transactions submitted.
\<close>

datatype waitOutcome = Confirmed | WaitRejected ethersError | NoConfirmation

datatype submission = SubmitPaintPixel int int string int

definition paintPixel ::
  "bool \<Rightarrow> int \<Rightarrow> int \<Rightarrow> string \<Rightarrow> int \<Rightarrow> ethersError + string \<Rightarrow> waitOutcome
     \<Rightarrow> TransactionResult \<times> submission list" where
  "paintPixel hasRunner x y color fee submitted waited =
     (let bytes3Color = hexToBytes3 color
      in if \<not> hasRunner then
           (\<lparr>success = False, transactionHash = None,
             txError = Some ''Wallet not connected to contract''\<rparr>, [])
         else
           (case submitted of
              Inl (EthersError code message) \<Rightarrow>
                (if code = Some ''INSUFFICIENT_FUNDS'' then
                   \<lparr>success = False, transactionHash = None,
                    txError = Some ''Not enough ETH to cover the fee and gas''\<rparr>
                 else if code = Some ''ACTION_REJECTED'' then
                   \<lparr>success = False, transactionHash = None,
                    txError = Some ''Transaction rejected by user''\<rparr>
                 else
                   \<lparr>success = False, transactionHash = None,
                    txError = Some (if message \<noteq> [] then message
                                    else ''Unknown error during transaction'')\<rparr>,
                 [SubmitPaintPixel x y bytes3Color fee])
            | Inr txHash \<Rightarrow>
                (case waited of
                   Confirmed \<Rightarrow>
                     \<lparr>success = True, transactionHash = Some txHash, txError = None\<rparr>
                 | _ \<Rightarrow>
                     \<lparr>success = True, transactionHash = Some txHash,
                      txError = Some ''Transaction sent but confirmation timed out. Check the transaction in block explorer.''\<rparr>,
                 [SubmitPaintPixel x y bytes3Color fee])))"

text \<open>
  \<open>safeContractCall\<close> of the service: the value of the contract call, or the default when
  the call throws.  \<open>EthersCanvasService.paintPixel\<close> reads the fee through it and hands
  over to \<open>paintPixel\<close>; the runner of its contract is the signer.
\<close>

definition safeContractCall :: "ethersError + 'a \<Rightarrow> 'a \<Rightarrow> 'a" where
  "safeContractCall called defaultValue =
     (case called of Inr result \<Rightarrow> result | Inl error \<Rightarrow> defaultValue)"

definition servicePaintPixel ::
  "bool \<Rightarrow> int \<Rightarrow> int \<Rightarrow> string \<Rightarrow> ethersError + int \<Rightarrow> ethersError + string \<Rightarrow> waitOutcome
     \<Rightarrow> TransactionResult \<times> submission list" where
  "servicePaintPixel hasSigner x y color pixelFee submitted waited =
     (if \<not> hasSigner then
        (\<lparr>success = False, transactionHash = None, txError = Some ''Wallet not connected''\<rparr>, [])
      else
        (let fee = safeContractCall pixelFee 1000000000000000
         in paintPixel True x y color fee submitted waited))"

section \<open>Event subscription (\<open>onPixelPainted\<close> of the service)\<close>

text \<open>
  The closure state of one subscription: \<open>isConnected\<close>, \<open>reconnectAttempts\<close>, and the
  delay of the reconnect timer that is scheduled and has not fired, if any.  What a
  step does beyond the state is a list of effects; the callback passed by the owner of
  the subscription is the only thing of the owner's that the subscription calls.
\<close>

record subscription =
  isConnected :: bool
  reconnectAttempts :: nat
  pendingTimer :: "nat option"

datatype effect =
    ConsoleError string
  | ConsoleWarn string
  | ConsoleLog string
  | SetTimeout nat
  | ContractOff
  | ContractOn
  | InvokeCallback int int string string int

definition MAX_RECONNECT_ATTEMPTS :: nat where
  "MAX_RECONNECT_ATTEMPTS = 5"

definition RECONNECT_DELAY :: nat where
  "RECONNECT_DELAY = 2000"

definition attemptReconnect :: "subscription \<Rightarrow> subscription \<times> effect list" where
  "attemptReconnect sub =
     (if reconnectAttempts sub < MAX_RECONNECT_ATTEMPTS then
        (let attempts = reconnectAttempts sub + 1;
             backoffDelay = RECONNECT_DELAY * 2 ^ (attempts - 1)
         in (sub\<lparr>reconnectAttempts := attempts, pendingTimer := Some backoffDelay\<rparr>,
             [ConsoleLog (''Reconnect attempt '' @ numberToString (int attempts) @ '' in ''
                          @ numberToString (int backoffDelay) @ ''ms...''),
              SetTimeout backoffDelay]))
      else (sub, [ConsoleError ''Max reconnect attempts reached, giving up'']))"

definition handleConnectionError :: "subscription \<Rightarrow> subscription \<times> effect list" where
  "handleConnectionError sub =
     (if isConnected sub then
        (let r = attemptReconnect (sub\<lparr>isConnected := False\<rparr>)
         in (fst r,
             [ConsoleError ''Event subscription error:'',
              ConsoleWarn ''Lost connection to event subscription, attempting to reconnect...'']
             @ snd r))
      else (sub, [ConsoleError ''Event subscription error:'']))"

text \<open>
  The body of the reconnect timer.  \<open>contract.off\<close> and \<open>contract.on\<close> of ethers v6 are
  asynchronous: each call returns a promise, and the body does not await either.
  Whether the promises are later fulfilled or rejected, no exception reaches the \<open>try\<close>,
  so its statements all run and the \<open>catch\<close>, with its call of \<open>attemptReconnect\<close>, is
  never entered.  The argument says how the two promises settle; the body does not
  depend on it.  A timer fires only when one is pending.
\<close>

datatype reattach = Reattached | OffRejects | OnRejects

definition timerFired :: "reattach \<Rightarrow> subscription \<Rightarrow> subscription \<times> effect list" where
  "timerFired outcome sub =
     (case pendingTimer sub of
        None \<Rightarrow> (sub, [])
      | Some delay \<Rightarrow>
          (sub\<lparr>pendingTimer := None, isConnected := True, reconnectAttempts := 0\<rparr>,
           [ContractOff, ContractOn,
            ConsoleLog ''Successfully reconnected to event subscription'']))"

text \<open>
  The listener of the \<open>PixelPainted\<close> contract event builds the event object, with
  \<open>Date.now()\<close> as its timestamp, and passes it to the owner's callback.
\<close>

definition bytes3ToHex :: "string \<Rightarrow> string" where
  "bytes3ToHex bytes3 =
     (let hex = drop 2 bytes3
      in ''#'' @ replicate (6 - length hex) CHR ''0'' @ hex)"

definition listener :: "int \<Rightarrow> int \<Rightarrow> string \<Rightarrow> string \<Rightarrow> int \<Rightarrow> effect list" where
  "listener x y color painter now = [InvokeCallback x y (bytes3ToHex color) painter now]"

datatype subscriptionEvent =
    ConnectionError
  | TimerFires reattach
  | PixelPainted int int string string int

fun subscriptionStep :: "subscription \<Rightarrow> subscriptionEvent \<Rightarrow> subscription \<times> effect list" where
  "subscriptionStep sub ConnectionError = handleConnectionError sub"
| "subscriptionStep sub (TimerFires outcome) = timerFired outcome sub"
| "subscriptionStep sub (PixelPainted x y color painter now) = (sub, listener x y color painter now)"






fun isTimer :: "effect \<Rightarrow> bool" where
  "isTimer (SetTimeout delay) = True"
| "isTimer _ = False"

section \<open>Service initialization (\<open>CanvasServiceProvider\<close>)\<close>

text \<open>
  \<open>getDimensions\<close> of \<open>EthersCanvasService\<close>: both reads go through \<open>safeContractCall\<close>
  with the defaults \<open>DEFAULT_WIDTH = DEFAULT_HEIGHT = 100\<close>.  The mock service answers
  with the same defaults.
\<close>

definition getDimensions :: "ethersError + int \<Rightarrow> ethersError + int \<Rightarrow> int \<times> int" where
  "getDimensions widthCall heightCall =
     (let width = safeContractCall widthCall 100;
          height = safeContractCall heightCall 100
      in (width, height))"

definition mockDimensions :: "int \<times> int" where
  "mockDimensions = (100, 100)"

text \<open>
  The state of the provider component, and what the environment does during one run
  of \<open>initializeCanvasService\<close>: whether \<open>new EthersCanvasService(chainId)\<close> throws, the
  outcomes of the contract reads \<open>WIDTH\<close> and \<open>HEIGHT\<close>, whether subscribing to the
  events throws, and whether the component is still mounted.
\<close>

datatype serviceKind = EthersService | MockService

record providerState =
  canvasService :: "serviceKind option"
  loading :: bool
  errorText :: "string option"
  isUsingFallback :: bool
  retryCount :: nat

record attempt =
  constructorThrows :: bool
  widthCall :: "ethersError + int"
  heightCall :: "ethersError + int"
  subscribeThrows :: bool
  isMounted :: bool

definition maxRetries :: nat where
  "maxRetries = 3"

definition initialProvider :: providerState where
  "initialProvider = \<lparr>canvasService = None, loading = True, errorText = None,
                        isUsingFallback = False, retryCount = 0\<rparr>"

text \<open>
  One run of \<open>initializeCanvasService\<close>.  The result is the provider state, the store,
  and the delay of the retry that the run scheduled, if any.
\<close>

definition initializeCanvasService ::
  "providerState \<Rightarrow> CanvasStore \<Rightarrow> attempt \<Rightarrow> providerState \<times> CanvasStore \<times> nat option" where
  "initializeCanvasService st store env =
     (if retryCount st \<ge> maxRetries then
        (st\<lparr>canvasService := Some MockService, isUsingFallback := True, loading := False,
            errorText := Some ''Using mock data after multiple failed connection attempts. The app will work in offline mode.''\<rparr>,
         store, None)
      else if constructorThrows env then
        (if isMounted env then
           (st\<lparr>canvasService := Some MockService, isUsingFallback := True, loading := False,
               errorText := Some ''Using mock data: Unable to connect to blockchain. Working in offline mode.''\<rparr>,
            setDimensions store (fst mockDimensions) (snd mockDimensions), None)
         else (st, store, None))
      else
        (let dimensions = getDimensions (widthCall env) (heightCall env)
         in if \<not> isMounted env then (st, store, None)
            else
              (let store1 = setDimensions store (fst dimensions) (snd dimensions)
               in if \<not> subscribeThrows env then
                    (st\<lparr>canvasService := Some EthersService, loading := False,
                        isUsingFallback := False, retryCount := 0\<rparr>,
                     store1, None)
                  else if retryCount st < maxRetries then
                    (let nextRetry = retryCount st + 1;
                         delay = 2000 * 2 ^ (nextRetry - 1)
                     in (st\<lparr>retryCount := nextRetry,
                             errorText := Some (''Connection attempt '' @ numberToString (int nextRetry)
                                @ ''/'' @ numberToString (int (maxRetries + 1))
                                @ '' failed. Retrying in '' @ numberToString (int (delay div 1000))
                                @ '' seconds...'')\<rparr>,
                         store1, Some delay))
                  else
                    (st\<lparr>canvasService := Some MockService, isUsingFallback := True, loading := False,
                        errorText := Some ''Using simulated data: Contract interaction failed. The app will work with mock data for testing.''\<rparr>,
                     setDimensions store1 (fst mockDimensions) (snd mockDimensions), None))))"

text \<open>
  Startup: the first run, and one more run for every retry that was scheduled, each in
  the environment of its time.
\<close>

fun startup :: "attempt list \<Rightarrow> providerState \<Rightarrow> CanvasStore \<Rightarrow> providerState \<times> CanvasStore" where
  "startup [] st store = (st, store)"
| "startup (env # envs) st store =
     (case initializeCanvasService st store env of
        (st', store', Some delay) \<Rightarrow> startup envs st' store'
      | (st', store', None) \<Rightarrow> (st', store'))"

text \<open>
  A run in which both dimension reads fail with the provider's timeout, and a run in
  which the subscription throws.
\<close>

definition dimensionTimeout :: attempt where
  "dimensionTimeout =
     \<lparr>constructorThrows = False,
      widthCall = Inl (EthersError None ''Request timed out after 20000ms: eth_call''),
      heightCall = Inl (EthersError None ''Request timed out after 20000ms: eth_call''),
      subscribeThrows = False, isMounted = True\<rparr>"

definition subscriptionFailure :: attempt where
  "subscriptionFailure =
     \<lparr>constructorThrows = False, widthCall = Inr 100, heightCall = Inr 100,
      subscribeThrows = True, isMounted = True\<rparr>"

section \<open>Reading a section (\<open>getCanvasSection\<close> of the service)\<close>

text \<open>
  \<open>processCanvasSectionData\<close> maps the raw rows of the contract to pixels, taking the
  coordinates from the indices.
\<close>

definition DEFAULT_COLOR :: string where
  "DEFAULT_COLOR = ''#EFEFEF''"

definition MAX_CHUNK_SIZE :: nat where
  "MAX_CHUNK_SIZE = 10"

definition processCanvasSectionData :: "string list list \<Rightarrow> int \<Rightarrow> int \<Rightarrow> Pixel list list" where
  "processCanvasSectionData rawData startX startY =
     map (\<lambda>(y, row).
            map (\<lambda>(x, color).
                   \<lparr>px = startX + int x, py = startY + int y,
                    pcolor = bytes3ToHex color, lastPainted = None\<rparr>)
                (enumerate 0 row))
         (enumerate 0 rawData)"

text \<open>The initial result: \<open>height\<close> rows of \<open>width\<close> pixels of the default colour.\<close>

definition defaultPixel :: "int \<Rightarrow> int \<Rightarrow> nat \<Rightarrow> nat \<Rightarrow> Pixel" where
  "defaultPixel startX startY x y =
     \<lparr>px = startX + int x, py = startY + int y, pcolor = DEFAULT_COLOR, lastPainted = None\<rparr>"

definition defaultChunk :: "int \<Rightarrow> int \<Rightarrow> nat \<Rightarrow> nat \<Rightarrow> CanvasChunk" where
  "defaultChunk startX startY width height =
     map (\<lambda>y. map (\<lambda>x. Some (defaultPixel startX startY x y)) [0..<width]) [0..<height]"

text \<open>
  The merge \<open>result[chunkY + y][chunkX + x] = chunkData[y][x]\<close> for \<open>y < chunkHeight\<close> and
  \<open>x < chunkWidth\<close>.  \<open>chunkData[y][x]\<close> is \<open>undefined\<close> beyond the end of a row, and the
  assignment stores it; beyond the last row \<open>chunkData[y]\<close> is \<open>undefined\<close> and reading
  its element throws, which ends the merge of this sub-chunk in the \<open>catch\<close> with the
  rows written so far kept.
\<close>

definition jsCell :: "Pixel list \<Rightarrow> nat \<Rightarrow> Pixel option" where
  "jsCell row x = (if x < length row then Some (row ! x) else None)"

definition mergeRow :: "Pixel option list \<Rightarrow> Pixel list \<Rightarrow> nat \<Rightarrow> nat \<Rightarrow> Pixel option list" where
  "mergeRow resultRow dataRow chunkX chunkWidth =
     fold (\<lambda>x row. row[chunkX + x := jsCell dataRow x]) [0..<chunkWidth] resultRow"

fun mergeRows ::
  "Pixel list list \<Rightarrow> nat \<Rightarrow> nat \<Rightarrow> nat \<Rightarrow> nat list \<Rightarrow> CanvasChunk \<Rightarrow> CanvasChunk" where
  "mergeRows chunkData chunkX chunkY chunkWidth [] result = result"
| "mergeRows chunkData chunkX chunkY chunkWidth (y # ys) result =
     (if y < length chunkData then
        mergeRows chunkData chunkX chunkY chunkWidth ys
          (result[chunkY + y := mergeRow (result ! (chunkY + y)) (chunkData ! y) chunkX chunkWidth])
      else result)"

text \<open>
  The counter of \<open>for (let c = 0; c < n; c += MAX_CHUNK_SIZE)\<close>, and the body of the two
  nested \<open>for\<close> statements over the sub-chunks: a failed fetch leaves the result as it is.  The contract is
  a function from the four arguments of its \<open>getCanvasSection\<close> to what the call does.
  \<open>width\<close> and \<open>height\<close> are counts of cells.
\<close>

function chunkOffsets :: "nat \<Rightarrow> nat \<Rightarrow> nat list" where
  "chunkOffsets c n = (if c < n then c # chunkOffsets (c + MAX_CHUNK_SIZE) n else [])"
  by pat_completeness auto
termination
  by (relation "measure (\<lambda>(c, n). n - c)") (auto simp: MAX_CHUNK_SIZE_def)

type_synonym contractRead = "int \<Rightarrow> int \<Rightarrow> nat \<Rightarrow> nat \<Rightarrow> ethersError + string list list"

definition fetchSubChunk ::
  "contractRead \<Rightarrow> int \<Rightarrow> int \<Rightarrow> nat \<Rightarrow> nat \<Rightarrow> nat \<Rightarrow> nat \<Rightarrow> CanvasChunk \<Rightarrow> CanvasChunk" where
  "fetchSubChunk contract startX startY width height chunkY chunkX result =
     (let chunkHeight = min MAX_CHUNK_SIZE (height - chunkY);
          chunkWidth = min MAX_CHUNK_SIZE (width - chunkX)
      in case contract (startX + int chunkX) (startY + int chunkY) chunkWidth chunkHeight of
           Inl chunkError \<Rightarrow> result
         | Inr rawData \<Rightarrow>
             (let chunkData = processCanvasSectionData rawData (startX + int chunkX) (startY + int chunkY)
              in mergeRows chunkData chunkX chunkY chunkWidth [0..<chunkHeight] result))"

definition getCanvasSection :: "contractRead \<Rightarrow> int \<Rightarrow> int \<Rightarrow> nat \<Rightarrow> nat \<Rightarrow> CanvasChunk" where
  "getCanvasSection contract startX startY width height =
     fold (\<lambda>chunkY result.
             fold (fetchSubChunk contract startX startY width height chunkY)
                  (chunkOffsets 0 width) result)
          (chunkOffsets 0 height)
          (defaultChunk startX startY width height)"

text \<open>
  Every successful response has at least the rows and columns that were asked for; the
  sub-chunk of a cell; a contract that answers every read with one empty row.
\<close>

definition wellShaped :: "contractRead \<Rightarrow> bool" where
  "wellShaped contract =
     (\<forall>a b w h rawData. contract a b w h = Inr rawData \<longrightarrow>
        h \<le> length rawData \<and> (\<forall>y < h. w \<le> length (rawData ! y)))"

definition subChunkFails :: "contractRead \<Rightarrow> int \<Rightarrow> int \<Rightarrow> nat \<Rightarrow> nat \<Rightarrow> nat \<Rightarrow> nat \<Rightarrow> bool" where
  "subChunkFails contract startX startY width height x y =
     (let chunkX = (x div MAX_CHUNK_SIZE) * MAX_CHUNK_SIZE;
          chunkY = (y div MAX_CHUNK_SIZE) * MAX_CHUNK_SIZE
      in case contract (startX + int chunkX) (startY + int chunkY)
                (min MAX_CHUNK_SIZE (width - chunkX)) (min MAX_CHUNK_SIZE (height - chunkY)) of
           Inl chunkError \<Rightarrow> True
         | Inr rawData \<Rightarrow> False)"

definition emptyRowContract :: contractRead where
  "emptyRowContract a b w h = Inr [[]]"

definition failingContract :: contractRead where
  "failingContract a b w h = Inl (EthersError (Some ''CALL_EXCEPTION'') ''execution reverted'')"

text \<open>
  Every cell of a result is a pixel that carries the coordinates of its place; and
  every cell whose sub-chunk could not be fetched is the default pixel of its place.
\<close>

definition cellsPlaced :: "int \<Rightarrow> int \<Rightarrow> CanvasChunk \<Rightarrow> bool" where
  "cellsPlaced startX startY result =
     (\<forall>y < length result. \<forall>x < length (result ! y).
        \<exists>p. result ! y ! x = Some p \<and> px p = startX + int x \<and> py p = startY + int y)"

definition defaultsKept ::
  "contractRead \<Rightarrow> int \<Rightarrow> int \<Rightarrow> nat \<Rightarrow> nat \<Rightarrow> CanvasChunk \<Rightarrow> bool" where
  "defaultsKept contract startX startY width height result =
     (\<forall>y < height. \<forall>x < width.
        subChunkFails contract startX startY width height x y \<longrightarrow>
          result ! y ! x = Some (defaultPixel startX startY x y))"

text \<open>A contract on which every cell is red.\<close>

definition redContract :: contractRead where
  "redContract a b w h = Inr (replicate h (replicate w ''0xff0000''))"

section \<open>Auxiliary facts\<close>

lemma getChunkKey_0_0: "getChunkKey 0 0 = ''0,0''"
  by (simp add: getChunkKey_def numberToString_def)

lemma getChunkKey_20_0: "getChunkKey 20 0 = ''20,0''"
  by (simp add: getChunkKey_def numberToString_def)

lemma chunkStart_0: "chunkStart 0 cs = 0"
  by (simp add: chunkStart_def)

lemma cellAt_update_other:
  assumes "cellAt chunk ry rx = Some p" and "(j, i) \<noteq> (ry, rx)"
  shows "cellAt (chunk[nat ry := (chunk ! nat ry)[nat rx := v]]) j i = cellAt chunk j i"
proof -
  from assms(1) have ry: "0 \<le> ry" "ry < int (length chunk)" and rx: "0 \<le> rx"
    by (auto simp: cellAt_def jsIndex_def split: if_splits option.splits)
  show ?thesis
  proof (cases "j = ry")
    case True
    with assms(2) have "i \<noteq> rx" by simp
    with True ry rx show ?thesis
      by (auto simp: cellAt_def jsIndex_def nth_list_update nat_eq_iff split: option.splits)
  next
    case False
    with ry show ?thesis
      by (auto simp: cellAt_def jsIndex_def nth_list_update split: option.splits)
  qed
qed

lemma cellAt_update_same:
  assumes "cellAt chunk ry rx = Some p"
  shows "cellAt (chunk[nat ry := (chunk ! nat ry)[nat rx := v]]) ry rx = v"
  using assms
  by (auto simp: cellAt_def jsIndex_def split: if_splits option.splits)

section \<open>Idempotence of the chunk merge\<close>

text \<open>
  Claim C9.  Merging a chunk twice with identical data is idempotent: for every store
  state, chunk origin and chunk data, the state after two calls of \<open>setChunk\<close> with the
  same arguments is the state after one call.
\<close>

theorem setChunk_idempotent:
  "setChunk (setChunk s startX startY chunk) startX startY chunk = setChunk s startX startY chunk"
  by (simp add: setChunk_def Let_def)

section \<open>The event path: \<open>updatePixel\<close>\<close>

lemma shape_update:
  "map length (chunk[j := (chunk ! j)[i := v]]) = map length chunk"
proof (cases "j < length chunk")
  case True
  then show ?thesis by (simp add: map_update list_update_same_conv)
next
  case False
  then show ?thesis by (simp add: list_update_beyond)
qed

lemma updatePixel_absent:
  "chunks s (getChunkKey (chunkStart x (chunkSize s)) (chunkStart y (chunkSize s))) = None
   \<Longrightarrow> updatePixel s x y color now = s"
  by (simp add: updatePixel_def Let_def)

lemma updatePixel_other_fields:
  "loadingChunks (updatePixel s x y color now) = loadingChunks s
   \<and> canvasWidth (updatePixel s x y color now) = canvasWidth s
   \<and> canvasHeight (updatePixel s x y color now) = canvasHeight s
   \<and> chunkSize (updatePixel s x y color now) = chunkSize s
   \<and> viewport (updatePixel s x y color now) = viewport s"
  by (simp add: updatePixel_def Let_def split: option.splits)

lemma updatePixel_other_chunks:
  "k \<noteq> getChunkKey (chunkStart x (chunkSize s)) (chunkStart y (chunkSize s))
   \<Longrightarrow> chunks (updatePixel s x y color now) k = chunks s k"
  by (simp add: updatePixel_def Let_def split: option.splits)

lemma updatePixel_present:
  assumes "chunks s (getChunkKey (chunkStart x (chunkSize s)) (chunkStart y (chunkSize s))) = Some chunk"
  shows "\<exists>chunk'. chunks (updatePixel s x y color now)
              (getChunkKey (chunkStart x (chunkSize s)) (chunkStart y (chunkSize s))) = Some chunk'
          \<and> map length chunk' = map length chunk
          \<and> (\<forall>j i. (j, i) \<noteq> (y - chunkStart y (chunkSize s), x - chunkStart x (chunkSize s))
                \<longrightarrow> cellAt chunk' j i = cellAt chunk j i)
          \<and> cellAt chunk' (y - chunkStart y (chunkSize s)) (x - chunkStart x (chunkSize s))
              = map_option (\<lambda>p. p\<lparr>pcolor := color, lastPainted := Some now\<rparr>)
                  (cellAt chunk (y - chunkStart y (chunkSize s)) (x - chunkStart x (chunkSize s)))"
proof (cases "cellAt chunk (y - chunkStart y (chunkSize s)) (x - chunkStart x (chunkSize s))")
  case None
  with assms show ?thesis
    by (simp add: updatePixel_def Let_def)
next
  case (Some p)
  with assms show ?thesis
    by (simp add: updatePixel_def Let_def shape_update cellAt_update_other cellAt_update_same)
qed

lemma onePixelStore_simps:
  "chunkSize onePixelStore = 20" "chunks onePixelStore ''0,0'' = Some [[Some whitePixel]]"
  by (simp_all add: onePixelStore_def setChunk_def initialStore_def getChunkKey_0_0 Let_def)

text \<open>
  Claim C10.  For every call \<open>updatePixel(x, y, color)\<close>: when the chunk containing
  \<open>(x, y)\<close> is not in the cache the whole store is unchanged (the update is dropped);
  otherwise the chunk keeps its shape, every cell other than the one at \<open>(x, y)\<close> keeps
  its value, the cell at \<open>(x, y)\<close>, when the chunk holds one, gets the new colour and
  \<open>lastPainted\<close> and keeps its coordinates, and every other chunk, the loading flags,
  the dimensions, the chunk size and the viewport are unchanged.
\<close>

theorem updatePixel_frame:
  assumes "0 < chunkSize s"
  shows "(chunks s (getChunkKey (chunkStart x (chunkSize s)) (chunkStart y (chunkSize s))) = None
            \<longrightarrow> updatePixel s x y color now = s)
       \<and> (\<forall>chunk. chunks s (getChunkKey (chunkStart x (chunkSize s)) (chunkStart y (chunkSize s)))
                     = Some chunk
            \<longrightarrow> (\<exists>chunk'. chunks (updatePixel s x y color now)
                     (getChunkKey (chunkStart x (chunkSize s)) (chunkStart y (chunkSize s))) = Some chunk'
                  \<and> map length chunk' = map length chunk
                  \<and> (\<forall>j i. (j, i) \<noteq> (y - chunkStart y (chunkSize s), x - chunkStart x (chunkSize s))
                        \<longrightarrow> cellAt chunk' j i = cellAt chunk j i)
                  \<and> cellAt chunk' (y - chunkStart y (chunkSize s)) (x - chunkStart x (chunkSize s))
                      = map_option (\<lambda>p. p\<lparr>pcolor := color, lastPainted := Some now\<rparr>)
                          (cellAt chunk (y - chunkStart y (chunkSize s)) (x - chunkStart x (chunkSize s)))))
       \<and> (\<forall>k. k \<noteq> getChunkKey (chunkStart x (chunkSize s)) (chunkStart y (chunkSize s))
            \<longrightarrow> chunks (updatePixel s x y color now) k = chunks s k)
       \<and> loadingChunks (updatePixel s x y color now) = loadingChunks s
       \<and> canvasWidth (updatePixel s x y color now) = canvasWidth s
       \<and> canvasHeight (updatePixel s x y color now) = canvasHeight s
       \<and> chunkSize (updatePixel s x y color now) = chunkSize s
       \<and> viewport (updatePixel s x y color now) = viewport s"
  using updatePixel_absent[of s x y color now] updatePixel_present[of s x y _ color now]
    updatePixel_other_chunks[of _ x s y color now] updatePixel_other_fields[of s x y color now]
  by blast

theorem updatePixel_frame_witness:
  "0 < chunkSize onePixelStore
   \<and> chunks onePixelStore (getChunkKey (chunkStart 0 (chunkSize onePixelStore)) (chunkStart 0 (chunkSize onePixelStore))) = Some [[Some whitePixel]]
   \<and> getPixel (updatePixel onePixelStore 0 0 ''#FF0000'' 1700000000000) 0 0
       = Some \<lparr>px = 0, py = 0, pcolor = ''#FF0000'', lastPainted = Some 1700000000000\<rparr>
   \<and> loadingChunks (updatePixel onePixelStore 0 0 ''#FF0000'' 1700000000000) = loadingChunks onePixelStore
   \<and> updatePixel initialStore 0 0 ''#FF0000'' 1700000000000 = initialStore"
proof -
  have a: "0 < chunkSize onePixelStore" "0 < chunkSize initialStore"
    by (simp_all add: onePixelStore_simps initialStore_def)
  have k: "getChunkKey (chunkStart 0 (chunkSize onePixelStore)) (chunkStart 0 (chunkSize onePixelStore)) = ''0,0''"
    "getChunkKey (chunkStart 0 (chunkSize initialStore)) (chunkStart 0 (chunkSize initialStore)) = ''0,0''"
    by (simp_all add: chunkStart_0 getChunkKey_0_0)
  have c: "chunks initialStore ''0,0'' = None" by (simp add: initialStore_def)
  from updatePixel_frame[OF a(1), of 0 0 "''#FF0000''" 1700000000000]
       updatePixel_frame[OF a(2), of 0 0 "''#FF0000''" 1700000000000]
  show ?thesis
    using a k c onePixelStore_simps
    by (auto simp: getPixel_def Let_def chunkStart_0 getChunkKey_0_0 whitePixel_def cellAt_def jsIndex_def)
qed

section \<open>The covering chunk set\<close>

declare forRange.simps [simp del]

lemma chunkStart_div: "chunkStart v cs = (v div cs) * cs"
  by (simp add: chunkStart_def floor_divide_of_int_eq)

lemma chunkEnd_div: "chunkEnd v cs = - ((- v) div cs) * cs"
  by (simp add: chunkEnd_def ceiling_divide_eq_div)

lemma chunkStart_bounds:
  assumes "0 < cs"
  shows "chunkStart v cs \<le> v" "v < chunkStart v cs + cs" "cs dvd chunkStart v cs"
proof -
  have "v = (v div cs) * cs + v mod cs" by simp
  moreover have "0 \<le> v mod cs" "v mod cs < cs" using assms by simp_all
  ultimately show "chunkStart v cs \<le> v" "v < chunkStart v cs + cs"
    unfolding chunkStart_div by linarith+
  show "cs dvd chunkStart v cs" by (simp add: chunkStart_div)
qed

lemma chunkEnd_bounds:
  assumes "0 < cs"
  shows "v \<le> chunkEnd v cs" "chunkEnd v cs - cs < v" "cs dvd chunkEnd v cs"
proof -
  define q where "q = (- v) div cs"
  have "- v = q * cs + (- v) mod cs" by (simp add: q_def)
  moreover have "0 \<le> (- v) mod cs" "(- v) mod cs < cs" using assms by simp_all
  moreover have "chunkEnd v cs = - (q * cs)" by (simp add: chunkEnd_div q_def)
  ultimately show "v \<le> chunkEnd v cs" "chunkEnd v cs - cs < v"
    by linarith+
  show "cs dvd chunkEnd v cs" by (simp add: chunkEnd_div)
qed

lemma forRange_covers:
  "0 < step \<Longrightarrow> a \<le> x \<Longrightarrow> x < e \<Longrightarrow> \<exists>k \<in> set (forRange a e step). k \<le> x \<and> x < k + step"
proof (induction a e step rule: forRange.induct)
  case (1 a e step)
  show ?case
  proof (cases "x < a + step")
    case True
    with "1.prems" show ?thesis by (auto simp: forRange.simps [of a])
  next
    case False
    with "1.prems" have "\<exists>k \<in> set (forRange (a + step) e step). k \<le> x \<and> x < k + step"
      by (intro "1.IH") auto
    with "1.prems" show ?thesis by (auto simp: forRange.simps [of a])
  qed
qed

lemma forRange_elem:
  "k \<in> set (forRange a e step) \<Longrightarrow> step dvd a \<Longrightarrow> a \<le> k \<and> k < e \<and> step dvd k"
proof (induction a e step rule: forRange.induct)
  case (1 a e step)
  from "1.prems"(1) have c: "0 < step \<and> a < e" and k: "k = a \<or> k \<in> set (forRange (a + step) e step)"
    by (auto simp: forRange.simps [of a] split: if_splits)
  from k show ?case
  proof
    assume "k = a" with c "1.prems" show ?thesis by simp
  next
    assume "k \<in> set (forRange (a + step) e step)"
    with c "1.prems"(2) have "a + step \<le> k \<and> k < e \<and> step dvd k"
      by (intro "1.IH") auto
    with c show ?thesis by simp
  qed
qed

lemma set_getVisibleChunks:
  "set (getVisibleChunks s vw vh) =
     set (forRange (chunkStart (visibleStartX s) (chunkSize s)) (chunkEnd (visibleEndX s vw) (chunkSize s)) (chunkSize s))
     \<times> set (forRange (chunkStart (visibleStartY s) (chunkSize s)) (chunkEnd (visibleEndY s vh) (chunkSize s)) (chunkSize s))"
  by (auto simp: getVisibleChunks_def Let_def)

lemma getVisibleChunks_complete:
  assumes cs: "0 < chunkSize s" and v: "visibleCell s vw vh x y"
  shows "\<exists>c \<in> set (getVisibleChunks s vw vh). inChunk (chunkSize s) c x y"
proof -
  from v have x: "visibleStartX s \<le> x" "x < visibleEndX s vw"
    and y: "visibleStartY s \<le> y" "y < visibleEndY s vh"
    by (simp_all add: visibleCell_def)
  have "chunkStart (visibleStartX s) (chunkSize s) \<le> x" "x < chunkEnd (visibleEndX s vw) (chunkSize s)"
    using chunkStart_bounds(1) [OF cs, of "visibleStartX s"] chunkEnd_bounds(1) [OF cs, of "visibleEndX s vw"] x
    by linarith+
  from forRange_covers [OF cs this]
  obtain cx where cx: "cx \<in> set (forRange (chunkStart (visibleStartX s) (chunkSize s))
      (chunkEnd (visibleEndX s vw) (chunkSize s)) (chunkSize s))" "cx \<le> x" "x < cx + chunkSize s"
    by blast
  have "chunkStart (visibleStartY s) (chunkSize s) \<le> y" "y < chunkEnd (visibleEndY s vh) (chunkSize s)"
    using chunkStart_bounds(1) [OF cs, of "visibleStartY s"] chunkEnd_bounds(1) [OF cs, of "visibleEndY s vh"] y
    by linarith+
  from forRange_covers [OF cs this]
  obtain cy where cy: "cy \<in> set (forRange (chunkStart (visibleStartY s) (chunkSize s))
      (chunkEnd (visibleEndY s vh) (chunkSize s)) (chunkSize s))" "cy \<le> y" "y < cy + chunkSize s"
    by blast
  from cx(1) cy(1) have "(cx, cy) \<in> set (getVisibleChunks s vw vh)"
    by (simp add: set_getVisibleChunks)
  moreover from cx cy have "inChunk (chunkSize s) (cx, cy) x y"
    by (simp add: inChunk_def)
  ultimately show ?thesis by blast
qed

text \<open>On one axis: an aligned origin of the range meets a non-empty interval.\<close>

lemma axis_meets:
  assumes cs: "0 < cs" and ne: "vs < ve"
    and k: "k \<in> set (forRange (chunkStart vs cs) (chunkEnd ve cs) cs)"
  shows "max k vs < ve \<and> max k vs < k + cs \<and> k \<le> max k vs \<and> vs \<le> max k vs"
proof -
  from forRange_elem [OF k chunkStart_bounds(3) [OF cs]]
  have lo: "chunkStart vs cs \<le> k" and hi: "k < chunkEnd ve cs" and d: "cs dvd k" by simp_all
  from d chunkEnd_bounds(3) [OF cs, of ve] have "cs dvd (chunkEnd ve cs - k)" by simp
  then obtain m where m: "chunkEnd ve cs - k = cs * m" by (auto simp: dvd_def)
  from hi m have "0 < cs * m" by linarith
  from this cs have "0 < m" by (rule zero_less_mult_pos)
  then have "cs * 1 \<le> cs * m" using cs by (intro mult_left_mono) simp_all
  with m have "k \<le> chunkEnd ve cs - cs" by simp
  with chunkEnd_bounds(2) [OF cs, of ve] have kv: "k < ve" by linarith
  from lo chunkStart_bounds(2) [OF cs, of vs] have "vs < k + cs" by linarith
  with kv ne cs show ?thesis by auto
qed

lemma getVisibleChunks_minimal:
  assumes cs: "0 < chunkSize s"
    and nx: "visibleStartX s < visibleEndX s vw" and ny: "visibleStartY s < visibleEndY s vh"
    and c: "c \<in> set (getVisibleChunks s vw vh)"
  shows "\<not> whollyOutside s vw vh c"
proof -
  from c have cx: "fst c \<in> set (forRange (chunkStart (visibleStartX s) (chunkSize s)) (chunkEnd (visibleEndX s vw) (chunkSize s)) (chunkSize s))"
    and cy: "snd c \<in> set (forRange (chunkStart (visibleStartY s) (chunkSize s)) (chunkEnd (visibleEndY s vh) (chunkSize s)) (chunkSize s))"
    by (auto simp: set_getVisibleChunks)
  from axis_meets [OF cs nx cx] axis_meets [OF cs ny cy]
  have "visibleCell s vw vh (max (fst c) (visibleStartX s)) (max (snd c) (visibleStartY s))
        \<and> inChunk (chunkSize s) c (max (fst c) (visibleStartX s)) (max (snd c) (visibleStartY s))"
    by (simp add: visibleCell_def inChunk_def)
  then show ?thesis unfolding whollyOutside_def by blast
qed

lemma forRange_0_40_20: "forRange 0 40 20 = [0, 20]"
  by (simp add: forRange.simps)

lemma forRange_20_40_20: "forRange 20 40 20 = [20]"
  by (simp add: forRange.simps)

lemma getVisibleChunks_scenario:
  assumes "chunkSize s = 20"
    and "visibleStartX s = 5" and "visibleStartY s = 5"
    and "visibleEndX s vw = 25 \<or> visibleEndX s vw = 26"
    and "visibleEndY s vh = 25 \<or> visibleEndY s vh = 26"
  shows "getVisibleChunks s vw vh = [(0, 0), (20, 0), (0, 20), (20, 20)]"
proof -
  have "chunkStart 5 20 = 0" "chunkEnd 25 20 = 40" "chunkEnd 26 20 = 40"
    by (simp_all add: chunkStart_def chunkEnd_def)
  with assms show ?thesis
    by (auto simp: getVisibleChunks_def Let_def forRange_0_40_20)
qed

lemma visibleCell_geometry:
  assumes "0 < scale (viewport s)"
  shows "visibleCell s vw vh x y \<longleftrightarrow>
      (0 \<le> x \<and> x < canvasWidth s \<and> 0 \<le> y \<and> y < canvasHeight s
       \<and> 0 < (real_of_int x + 1) * scale (viewport s) + offsetX (viewport s)
       \<and> real_of_int x * scale (viewport s) + offsetX (viewport s) < vw
       \<and> 0 < (real_of_int y + 1) * scale (viewport s) + offsetY (viewport s)
       \<and> real_of_int y * scale (viewport s) + offsetY (viewport s) < vh)"
proof -
  have a: "\<lfloor>- o1 / scale (viewport s)\<rfloor> \<le> z \<longleftrightarrow> 0 < (real_of_int z + 1) * scale (viewport s) + o1" for o1 z
  proof -
    have "\<lfloor>- o1 / scale (viewport s)\<rfloor> \<le> z \<longleftrightarrow> - o1 / scale (viewport s) < real_of_int z + 1"
      by (rule floor_le_iff)
    also have "\<dots> \<longleftrightarrow> - o1 < (real_of_int z + 1) * scale (viewport s)"
      using assms by (rule pos_divide_less_eq)
    also have "\<dots> \<longleftrightarrow> 0 < (real_of_int z + 1) * scale (viewport s) + o1"
      by linarith
    finally show ?thesis .
  qed
  have b: "z < \<lceil>(w - o1) / scale (viewport s)\<rceil> \<longleftrightarrow> real_of_int z * scale (viewport s) + o1 < w" for o1 w z
  proof -
    have "z < \<lceil>(w - o1) / scale (viewport s)\<rceil> \<longleftrightarrow> real_of_int z < (w - o1) / scale (viewport s)"
      by (rule less_ceiling_iff)
    also have "\<dots> \<longleftrightarrow> real_of_int z * scale (viewport s) < w - o1"
      using assms by (rule pos_less_divide_eq)
    also have "\<dots> \<longleftrightarrow> real_of_int z * scale (viewport s) + o1 < w"
      by linarith
    finally show ?thesis .
  qed
  have a': "\<lfloor>- (o1 / scale (viewport s))\<rfloor> \<le> z \<longleftrightarrow> 0 < (real_of_int z + 1) * scale (viewport s) + o1" for o1 z
    using a [of o1 z] by simp
  show ?thesis
    by (auto simp: visibleCell_def visibleStartX_def visibleStartY_def visibleEndX_def visibleEndY_def a' b)
qed

lemma scenarioStore_bounds:
  "visibleStartX scenarioStore = 5" "visibleStartY scenarioStore = 5"
  "visibleEndX scenarioStore 200 = 25" "visibleEndY scenarioStore 200 = 25"
  "chunkSize scenarioStore = 20" "scale (viewport scenarioStore) = 10"
  by (simp_all add: scenarioStore_def initialStore_def visibleStartX_def visibleStartY_def
      visibleEndX_def visibleEndY_def)

lemma pannedStore_bounds:
  "visibleStartX pannedStore = 25" "visibleStartY pannedStore = 0"
  "visibleEndX pannedStore 800 = 21" "visibleEndY pannedStore 600 = 21"
  "chunkSize pannedStore = 20"
  by (simp_all add: pannedStore_def visibleStartX_def visibleStartY_def
      visibleEndX_def visibleEndY_def)

text \<open>
  Claim C1, as amended.  For every grid size, positive chunk size and viewport with a
  positive scale, the chunk origins that \<open>getVisibleChunks\<close> returns are complete:
  every cell of the visible rectangle lies inside a returned chunk.  They are minimal
  when the visible rectangle is not empty (\<open>visibleStart < visibleEnd\<close> on both axes):
  then no returned chunk is wholly outside the visible rectangle.  On a store with
  chunk size 20 whose visible cells run from (5,5) to (25,25), exclusive or inclusive,
  the result is exactly (0,0), (20,0), (0,20), (20,20), in this order.
\<close>

theorem getVisibleChunks_covering:
  assumes "0 < chunkSize s" and "0 < scale (viewport s)"
  shows "(\<forall>x y. visibleCell s vw vh x y \<longrightarrow>
            (\<exists>c \<in> set (getVisibleChunks s vw vh). inChunk (chunkSize s) c x y))
       \<and> (visibleStartX s < visibleEndX s vw \<and> visibleStartY s < visibleEndY s vh \<longrightarrow>
            (\<forall>c \<in> set (getVisibleChunks s vw vh). \<not> whollyOutside s vw vh c))
       \<and> (chunkSize s = 20 \<and> visibleStartX s = 5 \<and> visibleStartY s = 5
            \<and> (visibleEndX s vw = 25 \<or> visibleEndX s vw = 26)
            \<and> (visibleEndY s vh = 25 \<or> visibleEndY s vh = 26) \<longrightarrow>
            getVisibleChunks s vw vh = [(0, 0), (20, 0), (0, 20), (20, 20)])"
proof (intro conjI)
  show "\<forall>x y. visibleCell s vw vh x y \<longrightarrow>
            (\<exists>c \<in> set (getVisibleChunks s vw vh). inChunk (chunkSize s) c x y)"
    using getVisibleChunks_complete [OF assms(1)] by blast
  show "visibleStartX s < visibleEndX s vw \<and> visibleStartY s < visibleEndY s vh \<longrightarrow>
            (\<forall>c \<in> set (getVisibleChunks s vw vh). \<not> whollyOutside s vw vh c)"
    using getVisibleChunks_minimal [OF assms(1)] by blast
  show "chunkSize s = 20 \<and> visibleStartX s = 5 \<and> visibleStartY s = 5
            \<and> (visibleEndX s vw = 25 \<or> visibleEndX s vw = 26)
            \<and> (visibleEndY s vh = 25 \<or> visibleEndY s vh = 26) \<longrightarrow>
            getVisibleChunks s vw vh = [(0, 0), (20, 0), (0, 20), (20, 20)]"
    using getVisibleChunks_scenario [of s vw vh] by blast
qed

theorem getVisibleChunks_covering_witness:
  "0 < chunkSize scenarioStore \<and> 0 < scale (viewport scenarioStore)
   \<and> visibleStartX scenarioStore = 5 \<and> visibleEndX scenarioStore 200 = 25
   \<and> visibleStartY scenarioStore = 5 \<and> visibleEndY scenarioStore 200 = 25
   \<and> visibleCell scenarioStore 200 200 24 5
   \<and> getVisibleChunks scenarioStore 200 200 = [(0, 0), (20, 0), (0, 20), (20, 20)]
   \<and> inChunk (chunkSize scenarioStore) (20, 0) 24 5
   \<and> \<not> whollyOutside scenarioStore 200 200 (20, 0)"
proof -
  have h: "0 < chunkSize scenarioStore" "0 < scale (viewport scenarioStore)"
    by (simp_all add: scenarioStore_bounds)
  have v: "visibleCell scenarioStore 200 200 24 5"
    by (simp add: visibleCell_def scenarioStore_bounds)
  have i: "inChunk (chunkSize scenarioStore) (20, 0) 24 5"
    by (simp add: inChunk_def scenarioStore_bounds)
  from getVisibleChunks_covering [OF h, of 200 200]
  have g: "getVisibleChunks scenarioStore 200 200 = [(0, 0), (20, 0), (0, 20), (20, 20)]"
    and m: "\<forall>c \<in> set (getVisibleChunks scenarioStore 200 200). \<not> whollyOutside scenarioStore 200 200 c"
    by (simp_all add: scenarioStore_bounds)
  from m g have "\<not> whollyOutside scenarioStore 200 200 (20, 0)" by simp
  with h v i g show ?thesis by (simp add: scenarioStore_bounds)
qed

theorem getVisibleChunks_minimal_counterexample:
  "visibleStartX pannedStore = 25 \<and> visibleEndX pannedStore 800 = 21
   \<and> getVisibleChunks pannedStore 800 600 = [(20, 0), (20, 20)]
   \<and> whollyOutside pannedStore 800 600 (20, 0)"
proof -
  have "chunkStart 25 20 = 20" "chunkStart 0 20 = 0" "chunkEnd 21 20 = 40"
    by (simp_all add: chunkStart_def chunkEnd_def)
  then have "getVisibleChunks pannedStore 800 600 = [(20, 0), (20, 20)]"
    by (simp add: getVisibleChunks_def Let_def pannedStore_bounds forRange_0_40_20 forRange_20_40_20)
  moreover have "whollyOutside pannedStore 800 600 (20, 0)"
    by (simp add: whollyOutside_def visibleCell_def pannedStore_bounds)
  ultimately show ?thesis by (simp add: pannedStore_bounds)
qed

section \<open>Known-bad calls\<close>

lemma find_known:
  "List.find (\<lambda>entry. ''0xd44d3394'' = fst entry) knownIssues = Some (knownIssues ! 0)"
  "List.find (\<lambda>entry. ''0x69ea80d5'' = fst entry) knownIssues = Some (knownIssues ! 1)"
  "List.find (\<lambda>entry. ''0xbb3c358c'' = fst entry) knownIssues = Some (knownIssues ! 2)"
  "List.find (\<lambda>entry. ''0xe59252c9'' = fst entry) knownIssues = Some (knownIssues ! 3)"
  "List.find (\<lambda>entry. ''0xc58f4da7'' = fst entry) knownIssues = Some (knownIssues ! 4)"
  by (simp_all add: knownIssues_def)

lemma lookupKnownIssue_prefix:
  assumes "(signature, config) \<in> set knownIssues" and "prefix signature data"
  shows "lookupKnownIssue ''eth_call'' (CallObject to (Some data) # rest) = Some config"
proof -
  from assms(2) obtain r where d: "data = signature @ r" by (auto simp: prefix_def)
  from assms(1) have "(signature, config) = knownIssues ! 0 \<or> (signature, config) = knownIssues ! 1
     \<or> (signature, config) = knownIssues ! 2 \<or> (signature, config) = knownIssues ! 3
     \<or> (signature, config) = knownIssues ! 4"
    by (simp add: knownIssues_def)
  then consider (a) "(signature, config) = knownIssues ! 0" | (b) "(signature, config) = knownIssues ! 1"
    | (c) "(signature, config) = knownIssues ! 2" | (d) "(signature, config) = knownIssues ! 3"
    | (e) "(signature, config) = knownIssues ! 4" by blast
  then show ?thesis
  proof cases
    case a
    then have s: "signature = ''0xd44d3394''" by (simp add: knownIssues_def)
    show ?thesis unfolding d s lookupKnownIssue_def using a [symmetric] by (simp add: find_known)
  next
    case b
    then have s: "signature = ''0x69ea80d5''" by (simp add: knownIssues_def)
    show ?thesis unfolding d s lookupKnownIssue_def using b [symmetric] by (simp add: find_known)
  next
    case c
    then have s: "signature = ''0xbb3c358c''" by (simp add: knownIssues_def)
    show ?thesis unfolding d s lookupKnownIssue_def using c [symmetric] by (simp add: find_known)
  next
    case d
    then have s: "signature = ''0xe59252c9''" by (simp add: knownIssues_def)
    show ?thesis unfolding \<open>data = signature @ r\<close> s lookupKnownIssue_def using d [symmetric] by (simp add: find_known)
  next
    case e
    then have s: "signature = ''0xc58f4da7''" by (simp add: knownIssues_def)
    show ?thesis unfolding d s lookupKnownIssue_def using e [symmetric] by (simp add: find_known)
  qed
qed

text \<open>
  Claim C4.  For every \<open>eth_call\<close> whose call data begins with one of the selectors of
  the \<open>knownIssues\<close> table, \<open>send\<close> returns at once the \<open>mockResponse\<close> configured for
  that selector; the provider is unchanged (nothing is queued) and no request is
  started, so nothing reaches the network transport.
\<close>

theorem send_known_issue:
  assumes "(signature, config) \<in> set knownIssues" and "prefix signature data"
  shows "send p ''eth_call'' (CallObject to (Some data) # rest) = (Returned (mockResponse config), p, [])"
  using lookupKnownIssue_prefix [OF assms] by (simp add: send_def)

theorem send_known_issue_witness:
  "(''0xe59252c9'', snd (knownIssues ! 3)) \<in> set knownIssues
   \<and> send newProvider ''eth_call'' getPixelColorCall = (Returned (JStr ''0xFFFFFF''), newProvider, [])"
proof -
  have a: "(''0xe59252c9'', snd (knownIssues ! 3)) \<in> set knownIssues"
    by (simp add: knownIssues_def)
  have b: "prefix ''0xe59252c9'' (''0xe59252c9'' @ r)" for r
    by (rule prefixI) simp
  have c: "mockResponse (snd (knownIssues ! 3)) = JStr ''0xFFFFFF''"
    by (simp add: knownIssues_def)
  from send_known_issue [OF a b, of newProvider] c
  have "send newProvider ''eth_call'' getPixelColorCall = (Returned (JStr ''0xFFFFFF''), newProvider, [])"
    unfolding getPixelColorCall_def by simp
  with a show ?thesis by simp
qed

section \<open>Overload\<close>

lemma stringIncludes_nonempty: "stringIncludes message (c # cs) \<Longrightarrow> message \<noteq> []"
  by auto

lemma applyProviderOp_maxBatchSize:
  "maxBatchSize p = 1 \<Longrightarrow> maxBatchSize (applyProviderOp p op) = 1"
proof (cases op)
  case (CallSend m ps)
  assume "maxBatchSize p = 1"
  with CallSend show ?thesis
    by (simp add: send_def processQueue_def Let_def split: option.splits)
next
  case (RunRequest m ps first retry)
  assume "maxBatchSize p = 1"
  with RunRequest show ?thesis
    by (simp add: runRequest_def Let_def split: outcome.splits)
next
  case NextBatch
  assume "maxBatchSize p = 1"
  with NextBatch show ?thesis
    by (simp add: processQueueNext_def)
qed

lemma session_maxBatchSize: "maxBatchSize p = 1 \<Longrightarrow> maxBatchSize (session ops p) = 1"
  unfolding session_def
  by (induction ops arbitrary: p) (simp_all add: applyProviderOp_maxBatchSize)

lemma runRequest_overload:
  assumes "stringIncludes message ''Batch size is too large''"
  shows "runRequest p method params (Failure message) retry =
     ((case retry of Success v \<Rightarrow> Resolved v | Failure e \<Rightarrow> Rejected e | NoAnswer \<Rightarrow> Pending),
      p\<lparr>maxBatchSize := 1, requestDelay := requestDelay p + 50\<rparr>,
      [Wait (requestDelay p), SuperSend method params, Wait 500, SuperSend method params])"
proof -
  from assms have "message \<noteq> []" by (rule stringIncludes_nonempty)
  with assms show ?thesis
    by (simp add: runRequest_def Let_def split: outcome.splits)
qed

text \<open>
  Claim C5.  When the first attempt of a request fails with an error whose message
  contains "Batch size is too large", \<open>maxBatchSize\<close> is set to 1 and stays 1 through
  every later operation on the provider, \<open>requestDelay\<close> grows by 50 ms, and the call
  is sent to the transport exactly once more, after a wait of 500 ms; the retry's
  result resolves the caller's promise and the retry's error rejects it.
\<close>

theorem overload_retry_once:
  assumes "stringIncludes message ''Batch size is too large''"
  shows "maxBatchSize (fst (snd (runRequest p method params (Failure message) retry))) = 1
       \<and> (\<forall>ops. maxBatchSize (session ops (fst (snd (runRequest p method params (Failure message) retry)))) = 1)
       \<and> requestDelay (fst (snd (runRequest p method params (Failure message) retry))) = requestDelay p + 50
       \<and> snd (snd (runRequest p method params (Failure message) retry))
            = [Wait (requestDelay p), SuperSend method params, Wait 500, SuperSend method params]
       \<and> (\<forall>result. retry = Success result \<longrightarrow>
             fst (runRequest p method params (Failure message) retry) = Resolved result)
       \<and> (\<forall>retryError. retry = Failure retryError \<longrightarrow>
             fst (runRequest p method params (Failure message) retry) = Rejected retryError)"
proof -
  have "maxBatchSize (p\<lparr>maxBatchSize := 1, requestDelay := requestDelay p + 50\<rparr>) = 1" by simp
  then have "\<forall>ops. maxBatchSize (session ops (p\<lparr>maxBatchSize := 1, requestDelay := requestDelay p + 50\<rparr>)) = 1"
    using session_maxBatchSize by blast
  then show ?thesis
    by (simp add: runRequest_overload [OF assms])
qed

theorem overload_retry_once_witness:
  "stringIncludes ''Batch size is too large. Max batch size: 10'' ''Batch size is too large''
   \<and> runRequest newProvider ''eth_call'' getPixelColorCall
        (Failure ''Batch size is too large. Max batch size: 10'')
        (Failure ''Batch size is too large. Max batch size: 10'')
      = (Rejected ''Batch size is too large. Max batch size: 10'',
         newProvider\<lparr>requestDelay := 100\<rparr>,
         [Wait 50, SuperSend ''eth_call'' getPixelColorCall, Wait 500,
          SuperSend ''eth_call'' getPixelColorCall])
   \<and> maxBatchSize (session [CallSend ''eth_blockNumber'' [], RunRequest ''eth_blockNumber'' [] (Success (JStr ''0x10'')) NoAnswer, NextBatch]
        (fst (snd (runRequest newProvider ''eth_call'' getPixelColorCall
        (Failure ''Batch size is too large. Max batch size: 10'')
        (Failure ''Batch size is too large. Max batch size: 10''))))) = 1"
proof -
  have a: "stringIncludes ''Batch size is too large. Max batch size: 10'' ''Batch size is too large''"
    by simp
  from overload_retry_once [OF a, of newProvider "''eth_call''" getPixelColorCall "Failure ''Batch size is too large. Max batch size: 10''"]
  have "maxBatchSize (session [CallSend ''eth_blockNumber'' [], RunRequest ''eth_blockNumber'' [] (Success (JStr ''0x10'')) NoAnswer, NextBatch]
        (fst (snd (runRequest newProvider ''eth_call'' getPixelColorCall
        (Failure ''Batch size is too large. Max batch size: 10'')
        (Failure ''Batch size is too large. Max batch size: 10''))))) = 1"
    by blast
  moreover have "runRequest newProvider ''eth_call'' getPixelColorCall
        (Failure ''Batch size is too large. Max batch size: 10'')
        (Failure ''Batch size is too large. Max batch size: 10'')
      = (Rejected ''Batch size is too large. Max batch size: 10'',
         newProvider\<lparr>requestDelay := 100\<rparr>,
         [Wait 50, SuperSend ''eth_call'' getPixelColorCall, Wait 500,
          SuperSend ''eth_call'' getPixelColorCall])"
    by (simp add: runRequest_overload [OF a] newProvider_def)
  ultimately show ?thesis using a by simp
qed

section \<open>A write whose confirmation times out\<close>

text \<open>
  Claim C6.  When \<open>paintPixel\<close> has submitted the transaction and the wait for its
  confirmation times out, the transaction is not submitted again (exactly one
  submission is made), and the caller of \<open>paintPixel\<close>, and of the service method
  around it, receives \<open>success: true\<close>, the transaction hash, and the message that the
  transaction was sent but its confirmation timed out.  This result differs from the
  confirmed one, and every failed submission has \<open>success: false\<close>.
\<close>

theorem paintPixel_confirmation_unknown:
  "paintPixel True x y color fee (Inr txHash) NoConfirmation =
     (\<lparr>success = True, transactionHash = Some txHash,
       txError = Some ''Transaction sent but confirmation timed out. Check the transaction in block explorer.''\<rparr>,
      [SubmitPaintPixel x y (hexToBytes3 color) fee])
   \<and> servicePaintPixel True x y color pixelFee (Inr txHash) NoConfirmation =
     (\<lparr>success = True, transactionHash = Some txHash,
       txError = Some ''Transaction sent but confirmation timed out. Check the transaction in block explorer.''\<rparr>,
      [SubmitPaintPixel x y (hexToBytes3 color) (safeContractCall pixelFee 1000000000000000)])
   \<and> fst (paintPixel True x y color fee (Inr txHash) NoConfirmation)
       \<noteq> fst (paintPixel True x y color fee (Inr txHash) Confirmed)
   \<and> success (fst (paintPixel True x y color fee (Inl submitError) waited)) = False
   \<and> length (snd (paintPixel hasRunner x y color fee submitted waited)) \<le> 1"
proof -
  have "success (fst (paintPixel True x y color fee (Inl submitError) waited)) = False"
    by (cases submitError) (simp add: paintPixel_def Let_def)
  moreover have "length (snd (paintPixel hasRunner x y color fee submitted waited)) \<le> 1"
    by (simp add: paintPixel_def Let_def split: sum.splits ethersError.splits waitOutcome.splits)
  ultimately show ?thesis
    by (simp add: paintPixel_def servicePaintPixel_def Let_def)
qed

section \<open>Degradation at startup\<close>

text \<open>
  A run of \<open>initializeCanvasService\<close> counts as failed only when something inside its
  inner \<open>try\<close> throws.  Three such runs bring \<open>retryCount\<close> to \<open>maxRetries\<close>, and the
  run after them installs the mock service.
\<close>

lemma initialize_live:
  assumes "retryCount st < maxRetries" and "\<not> constructorThrows env"
    and "\<not> subscribeThrows env" and "isMounted env"
  shows "fst (initializeCanvasService st store env) =
           st\<lparr>canvasService := Some EthersService, loading := False,
              isUsingFallback := False, retryCount := 0\<rparr>"
    and "snd (snd (initializeCanvasService st store env)) = None"
  using assms by (simp_all add: initializeCanvasService_def Let_def)

lemma thrown_failures_degrade:
  "fst (startup [subscriptionFailure, subscriptionFailure, subscriptionFailure, subscriptionFailure]
          initialProvider initialStore)
     = \<lparr>canvasService = Some MockService, loading = False,
        errorText = Some ''Using mock data after multiple failed connection attempts. The app will work in offline mode.'',
        isUsingFallback = True, retryCount = 3\<rparr>"
  "canvasService (fst (startup [subscriptionFailure, subscriptionFailure] initialProvider initialStore)) = None"
  "retryCount (fst (startup [subscriptionFailure, subscriptionFailure] initialProvider initialStore)) = 2"
  by (simp_all add: initializeCanvasService_def Let_def subscriptionFailure_def initialProvider_def
      maxRetries_def getDimensions_def safeContractCall_def)
text \<open>
  Claim C2.  The claim asks for the mock service and the degraded-mode flag once the
  dimension call has failed three times in a row.  The code does not get there:
  \<open>getDimensions\<close> absorbs a failed \<open>WIDTH\<close> or \<open>HEIGHT\<close> read in \<open>safeContractCall\<close> and
  returns 100x100, so the first run already installs the live service with
  \<open>isUsingFallback = false\<close> and \<open>retryCount = 0\<close>, and the retries are never scheduled.
\<close>

theorem dimension_failures_do_not_degrade:
  "startup [dimensionTimeout, dimensionTimeout, dimensionTimeout] initialProvider initialStore
     = (\<lparr>canvasService = Some EthersService, loading = False, errorText = None,
         isUsingFallback = False, retryCount = 0\<rparr>,
        initialStore)
   \<and> getDimensions (widthCall dimensionTimeout) (heightCall dimensionTimeout) = (100, 100)"
  by (simp add: initializeCanvasService_def Let_def dimensionTimeout_def initialProvider_def
      maxRetries_def getDimensions_def safeContractCall_def setDimensions_def initialStore_def)

section \<open>Totality of the section read\<close>

declare chunkOffsets.simps [simp del]

lemma fold_invariant:
  assumes "P a" and "\<And>x b. x \<in> set xs \<Longrightarrow> P b \<Longrightarrow> P (f x b)"
  shows "P (fold f xs a)"
  using assms by (induction xs arbitrary: a) simp_all

lemma length_mergeRow: "length (mergeRow row d cx cw) = length row"
  unfolding mergeRow_def by (rule fold_invariant) simp_all

lemma mergeRow_Suc:
  "mergeRow row d cx (Suc n) = (mergeRow row d cx n)[cx + n := jsCell d n]"
  by (simp add: mergeRow_def)

lemma mergeRow_outside:
  "i < cx \<or> cx + cw \<le> i \<Longrightarrow> mergeRow row d cx cw ! i = row ! i"
  by (induction cw) (auto simp: mergeRow_Suc mergeRow_def)

lemma mergeRow_inside:
  "cx \<le> i \<Longrightarrow> i < cx + cw \<Longrightarrow> i < length row \<Longrightarrow> mergeRow row d cx cw ! i = jsCell d (i - cx)"
proof (induction cw)
  case 0
  then show ?case by simp
next
  case (Suc n)
  show ?case
  proof (cases "i = cx + n")
    case True
    with Suc.prems show ?thesis by (simp add: mergeRow_Suc length_mergeRow)
  next
    case False
    with Suc show ?thesis by (simp add: mergeRow_Suc)
  qed
qed

lemma map_length_mergeRows:
  "map length (mergeRows cd cx cy cw ys R) = map length R"
proof (induction ys arbitrary: R)
  case Nil
  show ?case by simp
next
  case (Cons y ys)
  have "map length (R[cy + y := mergeRow (R ! (cy + y)) (cd ! y) cx cw]) = map length R"
    by (cases "cy + y < length R")
       (simp_all add: map_update length_mergeRow list_update_same_conv list_update_beyond)
  with Cons show ?case by simp
qed

lemma mergeRows_outside:
  "(\<forall>y \<in> set ys. cy + y \<noteq> j) \<or> i < cx \<or> cx + cw \<le> i
   \<Longrightarrow> mergeRows cd cx cy cw ys R ! j ! i = R ! j ! i"
proof (induction ys arbitrary: R)
  case Nil
  show ?case by simp
next
  case (Cons y ys)
  have "R[cy + y := mergeRow (R ! (cy + y)) (cd ! y) cx cw] ! j ! i = R ! j ! i"
  proof (cases "cy + y = j \<and> j < length R")
    case True
    with Cons.prems have "i < cx \<or> cx + cw \<le> i" by auto
    with True show ?thesis by (simp add: mergeRow_outside)
  next
    case False
    then show ?thesis by (cases "cy + y < length R") (auto simp: nth_list_update list_update_beyond)
  qed
  moreover from Cons.prems have "(\<forall>y \<in> set ys. cy + y \<noteq> j) \<or> i < cx \<or> cx + cw \<le> i" by auto
  ultimately show ?case using Cons.IH by simp
qed

lemma processCanvasSectionData_shape:
  "length (processCanvasSectionData raw sx sy) = length raw"
  "y < length raw \<Longrightarrow> length (processCanvasSectionData raw sx sy ! y) = length (raw ! y)"
  by (simp_all add: processCanvasSectionData_def nth_enumerate_eq)

lemma processCanvasSectionData_coords:
  "y < length raw \<Longrightarrow> x < length (raw ! y) \<Longrightarrow>
     px (processCanvasSectionData raw sx sy ! y ! x) = sx + int x
     \<and> py (processCanvasSectionData raw sx sy ! y ! x) = sy + int y"
  by (simp add: processCanvasSectionData_def nth_enumerate_eq)

lemma cellsPlaced_mergeRows:
  assumes "cellsPlaced sx sy R"
    and "\<forall>y \<in> set ys. y < length cd \<and> cw \<le> length (cd ! y)
           \<and> (\<forall>x < cw. px (cd ! y ! x) = sx + int (cx + x) \<and> py (cd ! y ! x) = sy + int (cy + y))"
  shows "cellsPlaced sx sy (mergeRows cd cx cy cw ys R)"
  using assms
proof (induction ys arbitrary: R)
  case Nil
  then show ?case by simp
next
  case (Cons y ys)
  let ?R = "R[cy + y := mergeRow (R ! (cy + y)) (cd ! y) cx cw]"
  from Cons.prems(2) have y: "y < length cd" "cw \<le> length (cd ! y)"
    and c: "\<And>x. x < cw \<Longrightarrow> px (cd ! y ! x) = sx + int (cx + x) \<and> py (cd ! y ! x) = sy + int (cy + y)"
    by simp_all
  have "cellsPlaced sx sy ?R"
    unfolding cellsPlaced_def
  proof (intro allI impI)
    fix j i assume j: "j < length ?R" and i: "i < length (?R ! j)"
    show "\<exists>p. ?R ! j ! i = Some p \<and> px p = sx + int i \<and> py p = sy + int j"
    proof (cases "j = cy + y \<and> cx \<le> i \<and> i < cx + cw")
      case True
      with j i have il: "i < length (R ! (cy + y))" by (simp add: length_mergeRow)
      from True have x: "i - cx < cw" by auto
      with y have "jsCell (cd ! y) (i - cx) = Some (cd ! y ! (i - cx))" by (simp add: jsCell_def)
      with True j il have "?R ! j ! i = Some (cd ! y ! (i - cx))"
        by (simp add: mergeRow_inside)
      moreover from c [OF x] True have "px (cd ! y ! (i - cx)) = sx + int i"
        "py (cd ! y ! (i - cx)) = sy + int j" by simp_all
      ultimately show ?thesis by simp
    next
      case False
      have "?R ! j ! i = R ! j ! i"
      proof (cases "j = cy + y")
        case True
        with False have "i < cx \<or> cx + cw \<le> i" by auto
        with True j show ?thesis by (simp add: mergeRow_outside)
      next
        case False
        then show ?thesis by simp
      qed
      moreover from j have jl: "j < length R" by simp
      moreover from jl i have "i < length (R ! j)"
        by (cases "j = cy + y") (simp_all add: length_mergeRow)
      ultimately show ?thesis using Cons.prems(1) by (simp add: cellsPlaced_def)
    qed
  qed
  moreover from Cons.prems(2) have "\<forall>y \<in> set ys. y < length cd \<and> cw \<le> length (cd ! y)
           \<and> (\<forall>x < cw. px (cd ! y ! x) = sx + int (cx + x) \<and> py (cd ! y ! x) = sy + int (cy + y))"
    by simp
  ultimately have "cellsPlaced sx sy (mergeRows cd cx cy cw ys ?R)" by (rule Cons.IH)
  with y show ?case by simp
qed

lemma cellsPlaced_fetchSubChunk:
  assumes "wellShaped contract" and "cellsPlaced sx sy R"
  shows "cellsPlaced sx sy (fetchSubChunk contract sx sy w h cY cX R)"
proof (cases "contract (sx + int cX) (sy + int cY) (min MAX_CHUNK_SIZE (w - cX)) (min MAX_CHUNK_SIZE (h - cY))")
  case (Inl e)
  with assms(2) show ?thesis by (simp add: fetchSubChunk_def Let_def)
next
  case (Inr raw)
  let ?cw = "min MAX_CHUNK_SIZE (w - cX)" and ?ch = "min MAX_CHUNK_SIZE (h - cY)"
  let ?cd = "processCanvasSectionData raw (sx + int cX) (sy + int cY)"
  from assms(1) Inr have s: "?ch \<le> length raw" "\<And>y. y < ?ch \<Longrightarrow> ?cw \<le> length (raw ! y)"
    unfolding wellShaped_def by blast+
  have "\<forall>y \<in> set [0..<?ch]. y < length ?cd \<and> ?cw \<le> length (?cd ! y)
          \<and> (\<forall>x < ?cw. px (?cd ! y ! x) = sx + int (cX + x) \<and> py (?cd ! y ! x) = sy + int (cY + y))"
  proof (intro ballI conjI allI impI)
    fix y assume "y \<in> set [0..<?ch]"
    then have y: "y < ?ch" by simp
    from y s(1) have yl: "y < length raw" by (rule less_le_trans)
    then show "y < length ?cd" by (simp add: processCanvasSectionData_shape)
    from s(2) [OF y] yl show "?cw \<le> length (?cd ! y)" by (simp add: processCanvasSectionData_shape)
    fix x assume "x < ?cw"
    from this s(2) [OF y] have "x < length (raw ! y)" by (rule less_le_trans)
    from processCanvasSectionData_coords [OF yl this, of "sx + int cX" "sy + int cY"]
    show "px (?cd ! y ! x) = sx + int (cX + x)" "py (?cd ! y ! x) = sy + int (cY + y)" by simp_all
  qed
  with assms(2) have "cellsPlaced sx sy (mergeRows ?cd cX cY ?cw [0..<?ch] R)"
    by (rule cellsPlaced_mergeRows)
  with Inr show ?thesis by (simp add: fetchSubChunk_def Let_def)
qed

lemma cellsPlaced_defaultChunk: "cellsPlaced sx sy (defaultChunk sx sy w h)"
  by (simp add: cellsPlaced_def defaultChunk_def defaultPixel_def)

lemma cellsPlaced_getCanvasSection:
  assumes "wellShaped contract"
  shows "cellsPlaced sx sy (getCanvasSection contract sx sy w h)"
  unfolding getCanvasSection_def
proof (rule fold_invariant [where P = "cellsPlaced sx sy"])
  show "cellsPlaced sx sy (defaultChunk sx sy w h)" by (rule cellsPlaced_defaultChunk)
next
  fix cY R assume "cellsPlaced sx sy R"
  then show "cellsPlaced sx sy (fold (fetchSubChunk contract sx sy w h cY) (chunkOffsets 0 w) R)"
  proof (rule fold_invariant [where P = "cellsPlaced sx sy"])
    fix cX R' assume "cellsPlaced sx sy R'"
    with assms show "cellsPlaced sx sy (fetchSubChunk contract sx sy w h cY cX R')"
      by (rule cellsPlaced_fetchSubChunk)
  qed
qed

lemma map_length_fetchSubChunk:
  "map length (fetchSubChunk contract sx sy w h cY cX R) = map length R"
  by (simp add: fetchSubChunk_def Let_def map_length_mergeRows split: sum.splits)

lemma map_length_getCanvasSection:
  "map length (getCanvasSection contract sx sy w h) = replicate h w"
proof -
  have "map length (getCanvasSection contract sx sy w h) = map length (defaultChunk sx sy w h)"
    unfolding getCanvasSection_def
  proof (rule fold_invariant [where P = "\<lambda>R. map length R = map length (defaultChunk sx sy w h)"])
    show "map length (defaultChunk sx sy w h) = map length (defaultChunk sx sy w h)" by simp
  next
    fix cY and R :: CanvasChunk assume "map length R = map length (defaultChunk sx sy w h)"
    then show "map length (fold (fetchSubChunk contract sx sy w h cY) (chunkOffsets 0 w) R)
                 = map length (defaultChunk sx sy w h)"
      by (rule fold_invariant [where P = "\<lambda>R. map length R = map length (defaultChunk sx sy w h)"])
         (simp add: map_length_fetchSubChunk)
  qed
  also have "\<dots> = replicate h w"
    by (simp add: defaultChunk_def list_eq_iff_nth_eq)
  finally show ?thesis .
qed

lemma chunkOffsets_elem:
  "c \<in> set (chunkOffsets a n) \<Longrightarrow> MAX_CHUNK_SIZE dvd a \<Longrightarrow> MAX_CHUNK_SIZE dvd c \<and> c < n"
proof (induction a n rule: chunkOffsets.induct)
  case (1 a n)
  from "1.prems"(1) have an: "a < n" and c: "c = a \<or> c \<in> set (chunkOffsets (a + MAX_CHUNK_SIZE) n)"
    by (auto simp: chunkOffsets.simps [of a] split: if_splits)
  from c show ?case
  proof
    assume "c = a" with an "1.prems"(2) show ?thesis by simp
  next
    assume "c \<in> set (chunkOffsets (a + MAX_CHUNK_SIZE) n)"
    with an "1.prems"(2) show ?thesis by (intro "1.IH") simp_all
  qed
qed

lemma aligned_div:
  assumes "MAX_CHUNK_SIZE dvd c" and "c \<le> x" and "x < c + MAX_CHUNK_SIZE"
  shows "(x div MAX_CHUNK_SIZE) * MAX_CHUNK_SIZE = c"
proof -
  from assms(1) obtain k where k: "c = MAX_CHUNK_SIZE * k" by (auto simp: dvd_def)
  with assms(2,3) have "MAX_CHUNK_SIZE * k \<le> x" "x < MAX_CHUNK_SIZE * Suc k" by simp_all
  then have "x div MAX_CHUNK_SIZE = k" by (rule div_nat_eqI)
  with k show ?thesis by simp
qed

lemma defaultsKept_fetchSubChunk:
  assumes "defaultsKept contract sx sy w h R"
    and "MAX_CHUNK_SIZE dvd cX" and "MAX_CHUNK_SIZE dvd cY"
  shows "defaultsKept contract sx sy w h (fetchSubChunk contract sx sy w h cY cX R)"
proof (cases "contract (sx + int cX) (sy + int cY) (min MAX_CHUNK_SIZE (w - cX)) (min MAX_CHUNK_SIZE (h - cY))")
  case (Inl e)
  with assms(1) show ?thesis by (simp add: fetchSubChunk_def Let_def)
next
  case (Inr raw)
  let ?cw = "min MAX_CHUNK_SIZE (w - cX)" and ?ch = "min MAX_CHUNK_SIZE (h - cY)"
  let ?cd = "processCanvasSectionData raw (sx + int cX) (sy + int cY)"
  have "defaultsKept contract sx sy w h (mergeRows ?cd cX cY ?cw [0..<?ch] R)"
    unfolding defaultsKept_def
  proof (intro allI impI)
    fix y x assume y: "y < h" and x: "x < w" and f: "subChunkFails contract sx sy w h x y"
    have "\<not> (cY \<le> y \<and> y < cY + ?ch \<and> cX \<le> x \<and> x < cX + ?cw)"
    proof
      assume a: "cY \<le> y \<and> y < cY + ?ch \<and> cX \<le> x \<and> x < cX + ?cw"
      then have "y < cY + MAX_CHUNK_SIZE" "x < cX + MAX_CHUNK_SIZE" by auto
      with a assms(2,3) have "(x div MAX_CHUNK_SIZE) * MAX_CHUNK_SIZE = cX"
        "(y div MAX_CHUNK_SIZE) * MAX_CHUNK_SIZE = cY"
        by (simp_all add: aligned_div)
      with f Inr show False by (simp add: subChunkFails_def Let_def)
    qed
    then have "(\<forall>y' \<in> set [0..<?ch]. cY + y' \<noteq> y) \<or> x < cX \<or> cX + ?cw \<le> x"
      by (auto simp del: min_less_iff_conj)
    then have "mergeRows ?cd cX cY ?cw [0..<?ch] R ! y ! x = R ! y ! x"
      by (rule mergeRows_outside)
    with assms(1) y x f show "mergeRows ?cd cX cY ?cw [0..<?ch] R ! y ! x = Some (defaultPixel sx sy x y)"
      by (simp add: defaultsKept_def)
  qed
  with Inr show ?thesis by (simp add: fetchSubChunk_def Let_def)
qed

lemma defaultsKept_defaultChunk: "defaultsKept contract sx sy w h (defaultChunk sx sy w h)"
  by (simp add: defaultsKept_def defaultChunk_def)

lemma defaultsKept_getCanvasSection:
  "defaultsKept contract sx sy w h (getCanvasSection contract sx sy w h)"
  unfolding getCanvasSection_def
proof (rule fold_invariant [where P = "defaultsKept contract sx sy w h"])
  show "defaultsKept contract sx sy w h (defaultChunk sx sy w h)" by (rule defaultsKept_defaultChunk)
next
  fix cY R assume cY: "cY \<in> set (chunkOffsets 0 h)" and R: "defaultsKept contract sx sy w h R"
  from chunkOffsets_elem [OF cY] have dY: "MAX_CHUNK_SIZE dvd cY" by simp
  from R show "defaultsKept contract sx sy w h
                 (fold (fetchSubChunk contract sx sy w h cY) (chunkOffsets 0 w) R)"
  proof (rule fold_invariant [where P = "defaultsKept contract sx sy w h"])
    fix cX R' assume cX: "cX \<in> set (chunkOffsets 0 w)" and R': "defaultsKept contract sx sy w h R'"
    from chunkOffsets_elem [OF cX] have "MAX_CHUNK_SIZE dvd cX" by simp
    with R' show "defaultsKept contract sx sy w h (fetchSubChunk contract sx sy w h cY cX R')"
      using dY by (rule defaultsKept_fetchSubChunk)
  qed
qed

lemma chunkOffsets_small: "0 < n \<Longrightarrow> n \<le> 10 \<Longrightarrow> chunkOffsets 0 n = [0]"
  by (simp add: chunkOffsets.simps [of 0] chunkOffsets.simps [of 10] MAX_CHUNK_SIZE_def)

lemma wellShaped_redContract: "wellShaped redContract"
  by (simp add: wellShaped_def redContract_def)

text \<open>
  Claim C8, as amended.  \<open>getCanvasSection\<close> has a result for every start and every
  \<open>width\<close> and \<open>height\<close>, whatever the contract does (a failed fetch is caught, so the
  call never rejects): exactly \<open>height\<close> rows of exactly \<open>width\<close> entries.  Every cell
  whose sub-chunk could not be fetched is the pixel of the default colour at
  \<open>(startX + x, startY + y)\<close>.  When every successful response of the contract has at
  least the rows and columns that were asked for, every entry is a pixel with the
  coordinates \<open>(startX + x, startY + y)\<close>.  Without that, an entry can be \<open>undefined\<close>:
  a response row shorter than the sub-chunk is merged as it is.
\<close>

theorem getCanvasSection_total:
  "length (getCanvasSection contract startX startY width height) = height
   \<and> (\<forall>row \<in> set (getCanvasSection contract startX startY width height). length row = width)
   \<and> (wellShaped contract \<longrightarrow>
        (\<forall>y < height. \<forall>x < width.
           \<exists>p. getCanvasSection contract startX startY width height ! y ! x = Some p
               \<and> px p = startX + int x \<and> py p = startY + int y))
   \<and> (\<forall>y < height. \<forall>x < width.
         subChunkFails contract startX startY width height x y \<longrightarrow>
           getCanvasSection contract startX startY width height ! y ! x
             = Some (defaultPixel startX startY x y))"
proof -
  let ?R = "getCanvasSection contract startX startY width height"
  have m: "map length ?R = replicate height width" by (rule map_length_getCanvasSection)
  then have "length (map length ?R) = height" by simp
  then have l: "length ?R = height" by simp
  have r: "\<forall>row \<in> set ?R. length row = width"
  proof
    fix row assume "row \<in> set ?R"
    then have "length row \<in> set (map length ?R)" by simp
    then show "length row = width" unfolding m by simp
  qed
  have p: "wellShaped contract \<longrightarrow>
        (\<forall>y < height. \<forall>x < width.
           \<exists>p. ?R ! y ! x = Some p \<and> px p = startX + int x \<and> py p = startY + int y)"
  proof (intro impI allI)
    fix y x assume w: "wellShaped contract" and y: "y < height" and x: "x < width"
    from y l have yl: "y < length ?R" by simp
    then have "?R ! y \<in> set ?R" by simp
    with r x have "x < length (?R ! y)" by simp
    with cellsPlaced_getCanvasSection [OF w, of startX startY width height] yl
    show "\<exists>p. ?R ! y ! x = Some p \<and> px p = startX + int x \<and> py p = startY + int y"
      unfolding cellsPlaced_def by blast
  qed
  have d: "\<forall>y < height. \<forall>x < width.
         subChunkFails contract startX startY width height x y \<longrightarrow>
           ?R ! y ! x = Some (defaultPixel startX startY x y)"
    using defaultsKept_getCanvasSection [of contract startX startY width height]
    unfolding defaultsKept_def .
  from l r p d show ?thesis by (intro conjI)
qed

theorem getCanvasSection_total_witness:
  "wellShaped redContract
   \<and> getCanvasSection redContract 5 7 2 1
       = [[Some \<lparr>px = 5, py = 7, pcolor = ''#ff0000'', lastPainted = None\<rparr>,
           Some \<lparr>px = 6, py = 7, pcolor = ''#ff0000'', lastPainted = None\<rparr>]]
   \<and> (\<exists>p. getCanvasSection redContract 5 7 2 1 ! 0 ! 1 = Some p \<and> px p = 5 + int 1 \<and> py p = 7 + int 0)
   \<and> subChunkFails failingContract 5 7 2 1 1 0
   \<and> getCanvasSection failingContract 5 7 2 1 ! 0 ! 1
       = Some \<lparr>px = 6, py = 7, pcolor = ''#EFEFEF'', lastPainted = None\<rparr>
   \<and> length (getCanvasSection failingContract 5 7 2 1) = 1"
proof -
  have a: "getCanvasSection redContract 5 7 2 1
       = [[Some \<lparr>px = 5, py = 7, pcolor = ''#ff0000'', lastPainted = None\<rparr>,
           Some \<lparr>px = 6, py = 7, pcolor = ''#ff0000'', lastPainted = None\<rparr>]]"
    by (simp add: getCanvasSection_def chunkOffsets_small fetchSubChunk_def redContract_def
        MAX_CHUNK_SIZE_def processCanvasSectionData_def defaultChunk_def mergeRow_def jsCell_def
        bytes3ToHex_def Let_def upt_rec [of 0] numeral_2_eq_2)
  have f: "subChunkFails failingContract 5 7 2 1 1 0"
    by (simp add: subChunkFails_def failingContract_def Let_def)
  have n: "(0::nat) < 1" "(1::nat) < 2" by simp_all
  from getCanvasSection_total [of redContract 5 7 2 1] wellShaped_redContract n
  have b: "\<exists>p. getCanvasSection redContract 5 7 2 1 ! 0 ! 1 = Some p \<and> px p = 5 + int 1 \<and> py p = 7 + int 0"
    by blast
  from getCanvasSection_total [of failingContract 5 7 2 1] f n
  have c: "getCanvasSection failingContract 5 7 2 1 ! 0 ! 1 = Some (defaultPixel 5 7 1 0)"
    by blast
  from getCanvasSection_total [of failingContract 5 7 2 1]
  have e: "length (getCanvasSection failingContract 5 7 2 1) = 1"
    by blast
  from c have c': "getCanvasSection failingContract 5 7 2 1 ! 0 ! 1
       = Some \<lparr>px = 6, py = 7, pcolor = ''#EFEFEF'', lastPainted = None\<rparr>"
    by (simp add: defaultPixel_def DEFAULT_COLOR_def)
  from wellShaped_redContract a b f c' e show ?thesis by (intro conjI)
qed

theorem getCanvasSection_short_row_counterexample:
  "getCanvasSection emptyRowContract 0 0 1 1 = [[None]]"
  by (simp add: getCanvasSection_def chunkOffsets_small fetchSubChunk_def emptyRowContract_def
      MAX_CHUNK_SIZE_def processCanvasSectionData_def defaultChunk_def mergeRow_def jsCell_def Let_def)

section \<open>Present and loading chunks\<close>

lemma setChunk_inv: "chunkStateInv s \<Longrightarrow> chunkStateInv (setChunk s startX startY chunk)"
  by (simp add: chunkStateInv_def setChunk_def Let_def)

lemma markLoading_current_inv:
  assumes "chunkStateInv s"
  shows "chunkStateInv (markLoading (chunks s) (loadingChunks s) s startX startY)"
  using assms
  by (simp add: chunkStateInv_def markLoading_def needsLoad_def setChunkLoading_def Let_def)

lemma initialStore_inv: "chunkStateInv initialStore"
  by (simp add: chunkStateInv_def initialStore_def)

text \<open>
  Claim C7.  The claim asks that no chunk key is ever both present and marked loading.
  \<open>loadVisibleChunks\<close> means to skip chunks that are "already loaded or loading", but it
  tests the \<open>chunks\<close> and \<open>loadingChunks\<close> objects of the render that created the
  callback.  Starting from the empty store, where the invariant holds, a load of (0,0)
  and (20,0) during which another task merges (20,0) ends with the chunk at \<open>''20,0''\<close>
  present and marked loading.
\<close>

theorem stale_snapshot_marks_present_chunk:
  "chunkStateInv initialStore
   \<and> needsLoad (chunks initialStore) (loadingChunks initialStore) 20 0
   \<and> chunks staleLoad ''20,0'' = Some [[Some whitePixel]]
   \<and> loadingChunks staleLoad ''20,0'' = Some True
   \<and> \<not> chunkStateInv staleLoad"
proof -
  have a: "chunks staleLoad ''20,0'' = Some [[Some whitePixel]]"
    by (simp add: staleLoad_def markLoading_def needsLoad_def setChunkLoading_def setChunk_def
        Let_def initialStore_def getChunkKey_0_0 getChunkKey_20_0)
  have b: "loadingChunks staleLoad ''20,0'' = Some True"
    by (simp add: staleLoad_def markLoading_def needsLoad_def setChunkLoading_def setChunk_def
        Let_def initialStore_def getChunkKey_0_0 getChunkKey_20_0)
  have c: "needsLoad (chunks initialStore) (loadingChunks initialStore) 20 0"
    by (simp add: needsLoad_def initialStore_def)
  from a b have "\<not> chunkStateInv staleLoad"
    by (auto simp: chunkStateInv_def)
  with a b c initialStore_inv show ?thesis by simp
qed

section \<open>Reconnecting the event subscription\<close>



lemma subscriptionStep_no_timer:
  "MAX_RECONNECT_ATTEMPTS \<le> reconnectAttempts sub \<Longrightarrow>
     filter isTimer (snd (subscriptionStep sub e)) = []"
  by (cases e)
     (simp_all add: handleConnectionError_def attemptReconnect_def timerFired_def listener_def
        Let_def split: option.splits)












end
